theory Spec2Isabelle
  imports Complex_Main "HOL-Library.Word" "HOL-Library.Sublist"
begin

section \<open>Realtime voice pipeline: shallow embedding of \<open>core/pipeline.py\<close>,
  \<open>core/vad.py\<close> and \<open>core/stt.py\<close>\<close>

text \<open>
  The Python sources are translated function by function. Mutable attributes of
  \<open>VoicePipeline\<close> and \<open>VADProcessor\<close> become record fields that are passed in and
  returned; every exception the code can raise is a value of \<open>py_error\<close>; the
  external collaborators (the Silero VAD model, scipy's polyphase resampler,
  \<open>json.loads\<close>, the STT/TTS/agent providers) are parameters of the functions that
  call them.
\<close>

subsection \<open>Exceptions\<close>

datatype py_error =
    QueueFull
  | QueueEmpty
  | ValueError
  | TypeError
  | KeyError
  | JSONDecodeError
  | OverflowError
  | ZeroDivisionError
  | StructError
  | ProviderError string

subsection \<open>Bounded queues (\<open>asyncio.Queue(maxsize=...)\<close>)\<close>

text \<open>
  \<open>asyncio.Queue\<close>: \<open>full()\<close> is \<open>False\<close> when \<open>maxsize <= 0\<close>, otherwise
  \<open>qsize() >= maxsize\<close>; \<open>put_nowait\<close> raises \<open>QueueFull\<close> on a full queue and
  appends on the right otherwise; \<open>get\<close> removes on the left.
\<close>

record 'a queue =
  maxsize :: int
  items :: "'a list"

definition MAX_QUEUE_SIZE :: int where
  "MAX_QUEUE_SIZE = 60"

definition new_queue :: "int \<Rightarrow> 'a queue" where
  "new_queue n = \<lparr>maxsize = n, items = []\<rparr>"

definition full :: "'a queue \<Rightarrow> bool" where
  "full q = (if maxsize q \<le> 0 then False else int (length (items q)) \<ge> maxsize q)"

definition put_nowait :: "'a queue \<Rightarrow> 'a \<Rightarrow> py_error + 'a queue" where
  "put_nowait q item = (if full q then Inl QueueFull else Inr (q\<lparr>items := items q @ [item]\<rparr>))"

definition get_nowait :: "'a queue \<Rightarrow> py_error + ('a \<times> 'a queue)" where
  "get_nowait q = (case items q of [] \<Rightarrow> Inl QueueEmpty | x # xs \<Rightarrow> Inr (x, q\<lparr>items := xs\<rparr>))"

text \<open>
  \<open>VoicePipeline._add_queue_no_wait\<close>: \<open>QueueFull\<close> is caught and logged as a warning;
  the second component counts the warnings written.
\<close>

definition add_queue_no_wait_log :: "'a queue \<Rightarrow> 'a \<Rightarrow> 'a queue \<times> nat" where
  "add_queue_no_wait_log q item =
     (case put_nowait q item of
        Inr q' \<Rightarrow> (q', 0)
      | Inl e \<Rightarrow> (q, 1))"

definition add_queue_no_wait :: "'a queue \<Rightarrow> 'a \<Rightarrow> 'a queue" where
  "add_queue_no_wait q item = fst (add_queue_no_wait_log q item)"

text \<open>
  A producer offering items and a consumer taking them, interleaved in any order.
  \<open>Take\<close> on an empty queue is the consumer's \<open>wait_for(..., timeout=1.0)\<close> expiring:
  nothing is consumed. The run returns the final queue and what the consumer saw.
\<close>

datatype 'a queue_op = Offer 'a | Take

fun run_queue :: "'a queue \<Rightarrow> 'a list \<Rightarrow> 'a queue_op list \<Rightarrow> 'a queue \<times> 'a list" where
  "run_queue q seen [] = (q, seen)"
| "run_queue q seen (Offer x # ops) = run_queue (add_queue_no_wait q x) seen ops"
| "run_queue q seen (Take # ops) =
     (case get_nowait q of
        Inl e \<Rightarrow> run_queue q seen ops
      | Inr (x, q') \<Rightarrow> run_queue q' (seen @ [x]) ops)"

fun offered :: "'a queue_op list \<Rightarrow> 'a list" where
  "offered [] = []"
| "offered (Offer x # ops) = x # offered ops"
| "offered (Take # ops) = offered ops"

text \<open>
  The drop-newest policy in the spec's words, for a queue of capacity 60 that holds
  \<open>n\<close> items when the operations start: an offer is discarded exactly when 60 items
  are waiting, every other offer is delivered, in the producer's order.
  \<open>drop_newest n ops\<close> lists the offers delivered, \<open>saturated n ops\<close> says that some
  offer met a full queue.
\<close>

fun drop_newest :: "nat \<Rightarrow> 'a queue_op list \<Rightarrow> 'a list" where
  "drop_newest n [] = []"
| "drop_newest n (Offer x # ops) = (if n \<ge> 60 then drop_newest n ops else x # drop_newest (Suc n) ops)"
| "drop_newest n (Take # ops) = drop_newest (n - 1) ops"

fun saturated :: "nat \<Rightarrow> 'a queue_op list \<Rightarrow> bool" where
  "saturated n [] = False"
| "saturated n (Offer x # ops) = (if n \<ge> 60 then True else saturated (Suc n) ops)"
| "saturated n (Take # ops) = saturated (n - 1) ops"

subsection \<open>Python slicing\<close>

text \<open>
  \<open>xs[i:j]\<close>, \<open>xs[i:]\<close> and \<open>xs[:j]\<close> for integer bounds: a negative bound counts
  from the end, and every bound is clamped into \<open>0 .. len(xs)\<close>; nothing raises.
\<close>

definition norm_index :: "nat \<Rightarrow> int \<Rightarrow> nat" where
  "norm_index n i = (if i < 0 then nat (max 0 (i + int n)) else min n (nat i))"

definition py_slice :: "'a list \<Rightarrow> int \<Rightarrow> int \<Rightarrow> 'a list" where
  "py_slice xs i j = drop (norm_index (length xs) i) (take (norm_index (length xs) j) xs)"

definition py_slice_from :: "'a list \<Rightarrow> int \<Rightarrow> 'a list" where
  "py_slice_from xs i = drop (norm_index (length xs) i) xs"

definition py_slice_to :: "'a list \<Rightarrow> int \<Rightarrow> 'a list" where
  "py_slice_to xs j = take (norm_index (length xs) j) xs"

subsection \<open>\<open>core/typing.py\<close>: configuration and audio chunks\<close>

type_synonym byte = "8 word"

text \<open>
  \<open>AudioChunk.audio\<close> is either the raw bytes of a client frame or an array of int16
  samples (each an integer in \<open>-32768 .. 32767\<close>).
\<close>

datatype audio_data = PCMBytes "byte list" | PCMSamples "int list"

record audio_chunk =
  flag :: nat
  timestamp :: rat
  audio :: audio_data
  transcript :: "string option"

record pipeline_config =
  header_bytes :: int
  received_audio_sample_rate :: int
  cfg_audio_sample_rate :: int
  cfg_speech_pad_samples_ms :: int
  cfg_min_silence_duration_ms :: int
  cfg_min_continuous_speech_s :: rat
  cfg_max_continuous_speech_s :: int

definition PipelineConfig :: pipeline_config where
  "PipelineConfig =
     \<lparr>header_bytes = 10,
      received_audio_sample_rate = 48000,
      cfg_audio_sample_rate = 16000,
      cfg_speech_pad_samples_ms = 100,
      cfg_min_silence_duration_ms = 500,
      cfg_min_continuous_speech_s = 1 / 2,
      cfg_max_continuous_speech_s = 20\<rparr>"

subsection \<open>\<open>core/vad.py\<close>: resampler\<close>

text \<open>
  \<open>np.frombuffer(audio_bytes, dtype=np.int16)\<close>: little-endian pairs of bytes read as
  two's complement; a buffer of odd length raises \<open>ValueError\<close>; the empty buffer gives
  the empty array; an int16 array is read back as itself.
\<close>

definition int16_le :: "byte \<Rightarrow> byte \<Rightarrow> int" where
  "int16_le lo hi =
     (let u = int (unat lo) + 256 * int (unat hi) in if u \<ge> 32768 then u - 65536 else u)"

fun int16_pairs :: "byte list \<Rightarrow> int list" where
  "int16_pairs (lo # hi # rest) = int16_le lo hi # int16_pairs rest"
| "int16_pairs _ = []"

definition frombuffer_int16 :: "audio_data \<Rightarrow> py_error + int list" where
  "frombuffer_int16 a =
     (case a of
        PCMBytes bs \<Rightarrow> (if odd (length bs) then Inl ValueError else Inr (int16_pairs bs))
      | PCMSamples xs \<Rightarrow> Inr xs)"

text \<open>\<open>np.abs\<close> on int16 wraps at the most negative value.\<close>

definition np_abs_int16 :: "int \<Rightarrow> int" where
  "np_abs_int16 x = (if x = - 32768 then - 32768 else \<bar>x\<bar>)"

text \<open>\<open>np.max\<close>: a zero-size array has no maximum and raises \<open>ValueError\<close>.\<close>

fun np_max :: "int list \<Rightarrow> py_error + int" where
  "np_max [] = Inl ValueError"
| "np_max (x # xs) = Inr (fold max xs x)"

text \<open>
  \<open>np.clip(x, -32768, 32767).astype(np.int16)\<close> on one resampled value: clamp, then
  truncate towards zero.
\<close>

definition clip_int16 :: "rat \<Rightarrow> int" where
  "clip_int16 x =
     (let c = max (- 32768) (min 32767 x) in if c \<ge> 0 then \<lfloor>c\<rfloor> else \<lceil>c\<rceil>)"

text \<open>
  \<open>audio_resampler\<close>. The polyphase filter \<open>scipy.signal.resample_poly(x, 1, ratio)\<close>
  is floating-point library code and is the parameter \<open>poly\<close>: it receives the samples
  and the ratio and returns the filtered values (or raises).
\<close>

definition audio_resampler ::
  "(int list \<Rightarrow> int \<Rightarrow> py_error + rat list) \<Rightarrow> audio_data \<Rightarrow> int \<Rightarrow> py_error + int list" where
  "audio_resampler poly audio_bytes resample_ratio =
     (case frombuffer_int16 audio_bytes of
        Inl e \<Rightarrow> Inl e
      | Inr audio_int16 \<Rightarrow>
          (case np_max (map np_abs_int16 audio_int16) of
             Inl e \<Rightarrow> Inl e
           | Inr m \<Rightarrow>
               if m = 0 then
                 (if resample_ratio = 0 then Inl ZeroDivisionError
                  else
                    let expect_len =
                          \<lceil>(of_nat (length audio_int16) :: rat) / of_int resample_ratio\<rceil>
                    in if expect_len < 0 then Inl ValueError
                       else Inr (replicate (nat expect_len) 0))
               else
                 (case poly audio_int16 resample_ratio of
                    Inl e \<Rightarrow> Inl e
                  | Inr resampled_audio \<Rightarrow> Inr (map clip_int16 resampled_audio))))"

subsection \<open>\<open>core/vad.py\<close>: \<open>VADProcessor\<close>\<close>

text \<open>
  The attributes set by \<open>__init__\<close>; \<open>max_audio_buffer\<close>, \<open>min_audio_samples\<close>,
  \<open>min_silence_samples\<close> and \<open>resample_ratio\<close> are the derived private attributes.
  \<open>min_continuous_speech_s\<close> is \<open>0.5\<close> by default, so \<open>min_audio_samples\<close> is a
  fraction.
\<close>

record vad_processor =
  original_audio_sample_rate :: int
  audio_sample_rate :: int
  max_continuous_speech_s :: int
  min_continuous_speech_s :: rat
  min_silence_duration_ms :: int
  speech_pad_samples_ms :: int
  audio_buffer :: "int list"
  max_audio_buffer :: int
  min_audio_samples :: rat
  min_silence_samples :: int
  resample_ratio :: int

definition VADProcessor :: "pipeline_config \<Rightarrow> py_error + vad_processor" where
  "VADProcessor c =
     (if cfg_audio_sample_rate c = 0 then Inl ZeroDivisionError
      else Inr
        \<lparr>original_audio_sample_rate = received_audio_sample_rate c,
         audio_sample_rate = cfg_audio_sample_rate c,
         max_continuous_speech_s = cfg_max_continuous_speech_s c,
         min_continuous_speech_s = cfg_min_continuous_speech_s c,
         min_silence_duration_ms = cfg_min_silence_duration_ms c,
         speech_pad_samples_ms = cfg_speech_pad_samples_ms c,
         audio_buffer = [],
         max_audio_buffer = cfg_max_continuous_speech_s c * cfg_audio_sample_rate c,
         min_audio_samples = cfg_min_continuous_speech_s c * of_int (cfg_audio_sample_rate c),
         min_silence_samples =
           cfg_min_silence_duration_ms c * (cfg_audio_sample_rate c div 1000),
         resample_ratio = received_audio_sample_rate c div cfg_audio_sample_rate c\<rparr>)"

text \<open>The processor \<open>VoicePipeline.__init__\<close> builds from the default configuration.\<close>

definition default_VADProcessor :: vad_processor where
  "default_VADProcessor =
     \<lparr>original_audio_sample_rate = 48000,
      audio_sample_rate = 16000,
      max_continuous_speech_s = 20,
      min_continuous_speech_s = 1 / 2,
      min_silence_duration_ms = 500,
      speech_pad_samples_ms = 100,
      audio_buffer = [],
      max_audio_buffer = 320000,
      min_audio_samples = 8000,
      min_silence_samples = 8000,
      resample_ratio = 3\<rparr>"

text \<open>One entry of Silero's \<open>get_speech_timestamps\<close>: \<open>{"start": ..., "end": ...}\<close>.\<close>

record speech_timestamp =
  ts_start :: int
  ts_end :: int

text \<open>\<open>VADProcessor._resample_audio\<close>: the resampler run on the chunk's audio.\<close>

definition resample_audio ::
  "(int list \<Rightarrow> int \<Rightarrow> py_error + rat list) \<Rightarrow> vad_processor \<Rightarrow> audio_data
     \<Rightarrow> py_error + int list" where
  "resample_audio poly p audio_bytes = audio_resampler poly audio_bytes (resample_ratio p)"

text \<open>
  The part of \<open>process_audio_chunk\<close> after the VAD model has answered: \<open>buf\<close> is the
  buffer with the new samples appended, \<open>speech_timestamps\<close> the model's ranges.
  \<open>int(size * 0.9)\<close> is \<open>size * 9 div 10\<close> (the double product rounds to the same
  integer for every size below \<open>2 ^ 50\<close>).
\<close>

definition segment_buffer ::
  "vad_processor \<Rightarrow> audio_chunk \<Rightarrow> int list \<Rightarrow> speech_timestamp list
     \<Rightarrow> vad_processor \<times> audio_chunk option" where
  "segment_buffer p audio_chunk buf speech_timestamps =
     (let buffer_is_full = (int (length buf) \<ge> max_audio_buffer p) in
      if speech_timestamps = [] \<and> buffer_is_full then
        (let samples_to_keep = int ((length buf * 9) div 10)
         in (p\<lparr>audio_buffer := py_slice_from buf (- samples_to_keep)\<rparr>, None))
      else if speech_timestamps = [] then (p\<lparr>audio_buffer := buf\<rparr>, None)
      else
        (let speech_start_sample = ts_start (hd speech_timestamps);
             speech_end_sample = ts_end (last speech_timestamps);
             speech_samples = map (\<lambda>t. py_slice buf (ts_start t) (ts_end t)) speech_timestamps;
             silence_samples = int (length buf) - speech_end_sample
         in
           if silence_samples \<ge> min_silence_samples p then
             (p\<lparr>audio_buffer := py_slice_from buf speech_end_sample\<rparr>,
              Some (audio_chunk\<lparr>audio := PCMSamples (concat speech_samples)\<rparr>))
           else if buffer_is_full then
             (let prev_length = length buf;
                  buf' = py_slice_from buf speech_start_sample
              in if prev_length = length buf' then
                   (p\<lparr>audio_buffer := []\<rparr>,
                    Some (audio_chunk\<lparr>audio := PCMSamples (concat speech_samples)\<rparr>))
                 else (p\<lparr>audio_buffer := buf'\<rparr>, None))
           else (p\<lparr>audio_buffer := buf\<rparr>, None)))"

text \<open>
  \<open>VADProcessor.process_audio_chunk\<close>. \<open>vad\<close> is the Silero model run over the whole
  buffer. Any exception empties the buffer and is re-raised.
\<close>

definition process_audio_chunk ::
  "(int list \<Rightarrow> int \<Rightarrow> py_error + rat list) \<Rightarrow> (int list \<Rightarrow> py_error + speech_timestamp list)
     \<Rightarrow> vad_processor \<Rightarrow> audio_chunk \<Rightarrow> vad_processor \<times> (py_error + audio_chunk option)" where
  "process_audio_chunk poly vad p audio_chunk =
     (case resample_audio poly p (audio audio_chunk) of
        Inl e \<Rightarrow> (p\<lparr>audio_buffer := []\<rparr>, Inl e)
      | Inr audio_int16 \<Rightarrow>
          (let buf = audio_buffer p @ audio_int16 in
           if of_nat (length buf) < min_audio_samples p then (p\<lparr>audio_buffer := buf\<rparr>, Inr None)
           else
             (case vad buf of
                Inl e \<Rightarrow> (p\<lparr>audio_buffer := []\<rparr>, Inl e)
              | Inr speech_timestamps \<Rightarrow>
                  (case segment_buffer p audio_chunk buf speech_timestamps of
                     (p', r) \<Rightarrow> (p', Inr r)))))"

text \<open>
  VAD ranges as the model produces them: in order, non-overlapping, each inside the
  buffer of \<open>n\<close> samples, starting at or after \<open>lo\<close>.
\<close>

fun ranges_ok :: "int \<Rightarrow> int \<Rightarrow> speech_timestamp list \<Rightarrow> bool" where
  "ranges_ok lo n [] = (lo \<le> n)"
| "ranges_ok lo n (t # ts) = (lo \<le> ts_start t \<and> ts_start t \<le> ts_end t \<and> ranges_ok (ts_end t) n ts)"

subsection \<open>\<open>core/pipeline.py\<close>: events\<close>

datatype ResponseEventType =
    TRANSCRIPTION_START
  | TRANSCRIPTION_TEXT
  | TRANSCRIPTION_TEXT_DELTA
  | TRANSCRIPTION_END
  | AI_RESPONSE_TEXT_START
  | AI_RESPONSE_TEXT_DELTA
  | AI_RESPONSE_TEXT_END
  | AI_RESPONSE_SPEECH_START
  | AI_RESPONSE_SPEECH_DELTA
  | AI_RESPONSE_SPEECH_END

text \<open>
  The content of an event is a text, or the base64 string of an int16 array's bytes;
  the latter is kept as the array it encodes (\<open>Base64Of xs\<close> stands for
  \<open>base64.b64encode(xs.tobytes()).decode("utf-8")\<close>, the empty string exactly when
  \<open>xs\<close> is empty).
\<close>

datatype event_content = Text string | Base64Of "int list"

record event_message =
  ev_type :: ResponseEventType
  ev_timestamp :: "rat option"
  ev_content :: "event_content option"

text \<open>
  \<open>_create_event_message\<close>: a missing or zero timestamp is replaced by the server
  clock (\<open>None\<close> here); the content is attached only when it is truthy.
\<close>

definition content_truthy :: "event_content \<Rightarrow> bool" where
  "content_truthy c = (case c of Text s \<Rightarrow> s \<noteq> [] | Base64Of xs \<Rightarrow> xs \<noteq> [])"

definition create_event_message ::
  "ResponseEventType \<Rightarrow> event_content option \<Rightarrow> rat option \<Rightarrow> event_message" where
  "create_event_message etype content tstamp =
     \<lparr>ev_type = etype,
      ev_timestamp = (case tstamp of None \<Rightarrow> None | Some t \<Rightarrow> if t = 0 then None else Some t),
      ev_content = (case content of None \<Rightarrow> None | Some c \<Rightarrow> if content_truthy c then Some c else None)\<rparr>"

subsection \<open>\<open>core/pipeline.py\<close>: pipeline state\<close>

datatype log_entry = LogDebug | LogWarning | LogException py_error

record voice_pipeline =
  config :: pipeline_config
  incoming_queue :: "audio_chunk queue"
  transcription_queue :: "audio_chunk queue"
  response_queue :: "event_message queue"
  is_tts_playing :: bool
  logs :: "log_entry list"

text \<open>\<open>VoicePipeline.__init__\<close>: every queue empty with capacity \<open>_MAX_QUEUE_SIZE\<close>,
  the TTS-playing flag clear.\<close>

definition VoicePipeline :: "pipeline_config \<Rightarrow> voice_pipeline" where
  "VoicePipeline c =
     \<lparr>config = c,
      incoming_queue = new_queue MAX_QUEUE_SIZE,
      transcription_queue = new_queue MAX_QUEUE_SIZE,
      response_queue = new_queue MAX_QUEUE_SIZE,
      is_tts_playing = False,
      logs = []\<rparr>"

text \<open>How a stage's task stands once its input is used up: still looping, or returned
  after its outermost handler logged an exception.\<close>

datatype task_outcome = Running | TaskEnded py_error

definition add_incoming :: "voice_pipeline \<Rightarrow> audio_chunk \<Rightarrow> voice_pipeline" where
  "add_incoming p c =
     (case add_queue_no_wait_log (incoming_queue p) c of
        (q, w) \<Rightarrow> p\<lparr>incoming_queue := q, logs := logs p @ replicate w LogWarning\<rparr>)"

text \<open>\<open>_add_event_message\<close>: build the message, offer it to the response queue.\<close>

definition add_response :: "voice_pipeline \<Rightarrow> event_message \<Rightarrow> voice_pipeline" where
  "add_response p m =
     (case add_queue_no_wait_log (response_queue p) m of
        (q, w) \<Rightarrow> p\<lparr>response_queue := q, logs := logs p @ replicate w LogWarning\<rparr>)"

subsection \<open>\<open>core/pipeline.py\<close>: \<open>process_incoming_data\<close> (Ingest)\<close>

text \<open>
  What \<open>websocket.receive()\<close> under \<open>wait_for(..., timeout=1.0)\<close> can do: time out,
  raise, or deliver a message dictionary with a \<open>bytes\<close> key, a \<open>text\<close> key (one of
  the two, as the server delivers them), or neither (a disconnect message).
\<close>

datatype ws_message = BytesMsg "byte list" | TextMsg string | OtherMsg

datatype ws_event = Timeout | ReceiveError py_error | Receive ws_message

text \<open>The values \<open>json.loads\<close> returns; \<open>json.loads\<close> itself is the parameter \<open>loads\<close>.\<close>

datatype json =
    JNull
  | JBool bool
  | JNumber rat
  | JString string
  | JArray "json list"
  | JObject "(string \<times> json) list"

text \<open>\<open>data["type"]\<close>: a dictionary without the key raises \<open>KeyError\<close>, anything that
  is not a dictionary raises \<open>TypeError\<close>.\<close>

definition subscript :: "json \<Rightarrow> string \<Rightarrow> py_error + json" where
  "subscript data k =
     (case data of
        JObject kvs \<Rightarrow> (case map_of kvs k of None \<Rightarrow> Inl KeyError | Some v \<Rightarrow> Inr v)
      | _ \<Rightarrow> Inl TypeError)"

text \<open>\<open>struct.unpack("!HQ", b)\<close>: big-endian unsigned 16 and 64 bit, ten bytes exactly.\<close>

definition be_uint :: "byte list \<Rightarrow> nat" where
  "be_uint bs = foldl (\<lambda>acc b. acc * 256 + unat b) 0 bs"

definition struct_unpack_HQ :: "byte list \<Rightarrow> py_error + (nat \<times> nat)" where
  "struct_unpack_HQ b =
     (if length b \<noteq> 10 then Inl StructError
      else Inr (be_uint (take 2 b), be_uint (drop 2 b)))"

text \<open>
  \<open>datetime.fromtimestamp(s).timestamp()\<close> for a whole number of seconds \<open>s\<close>: the
  same number as a float, as long as the date does not pass year 9999 (in UTC; the
  local zone moves the bound by its offset), where \<open>fromtimestamp\<close> raises.
\<close>

definition datetime_max_seconds :: nat where
  "datetime_max_seconds = 253402300799"

definition datetime_roundtrip :: "nat \<Rightarrow> py_error + rat" where
  "datetime_roundtrip s = (if s \<le> datetime_max_seconds then Inr (of_nat s) else Inl ValueError)"

text \<open>The loop body for one received message.\<close>

definition ingest_message ::
  "(string \<Rightarrow> py_error + json) \<Rightarrow> voice_pipeline \<Rightarrow> ws_message \<Rightarrow> py_error + voice_pipeline" where
  "ingest_message loads p data =
     (case data of
        BytesMsg raw_bytes \<Rightarrow>
          if \<not> is_tts_playing p then
            (if int (length raw_bytes) < header_bytes (config p) then
               Inr (p\<lparr>logs := logs p @ [LogDebug]\<rparr>)
             else
               (case struct_unpack_HQ (py_slice_to raw_bytes 10) of
                  Inl e \<Rightarrow> Inl e
                | Inr (flag_v, timestamp_ms) \<Rightarrow>
                    (let pcm = py_slice_from raw_bytes 10 in
                     case datetime_roundtrip (timestamp_ms div 1000) of
                       Inl e \<Rightarrow> Inl e
                     | Inr ts \<Rightarrow>
                         Inr (add_incoming p
                                \<lparr>flag = flag_v, timestamp = ts, audio = PCMBytes pcm,
                                 transcript = None\<rparr>))))
          else Inr p
      | TextMsg text \<Rightarrow>
          (case loads text of
             Inl e \<Rightarrow> Inl e
           | Inr data \<Rightarrow>
               (case subscript data ''type'' of
                  Inl e \<Rightarrow> Inl e
                | Inr ty \<Rightarrow>
                    if ty = JString ''tts_start'' then Inr (p\<lparr>is_tts_playing := True\<rparr>)
                    else if ty = JString ''tts_end'' then Inr (p\<lparr>is_tts_playing := False\<rparr>)
                    else Inr p))
      | OtherMsg \<Rightarrow> Inr p)"

text \<open>
  \<open>process_incoming_data\<close> over the events the channel produces until shutdown is
  set. An exception from \<open>receive\<close> or from the loop body reaches the outermost
  handler, is logged, and the task returns.
\<close>

fun process_incoming_data ::
  "(string \<Rightarrow> py_error + json) \<Rightarrow> voice_pipeline \<Rightarrow> ws_event list
     \<Rightarrow> voice_pipeline \<times> task_outcome" where
  "process_incoming_data loads p [] = (p, Running)"
| "process_incoming_data loads p (Timeout # evs) = process_incoming_data loads p evs"
| "process_incoming_data loads p (ReceiveError e # evs) =
     (p\<lparr>logs := logs p @ [LogException e]\<rparr>, TaskEnded e)"
| "process_incoming_data loads p (Receive data # evs) =
     (case ingest_message loads p data of
        Inl e \<Rightarrow> (p\<lparr>logs := logs p @ [LogException e]\<rparr>, TaskEnded e)
      | Inr p' \<Rightarrow> process_incoming_data loads p' evs)"

text \<open>A \<open>json.loads\<close> given by a finite table of texts and their values; every other
  text is rejected. Used to run the loop on concrete messages.\<close>

definition loads_table :: "(string \<times> json) list \<Rightarrow> string \<Rightarrow> py_error + json" where
  "loads_table tbl s = (case map_of tbl s of None \<Rightarrow> Inl JSONDecodeError | Some j \<Rightarrow> Inr j)"

text \<open>A text message that clears the TTS-playing flag.\<close>

definition is_tts_end :: "(string \<Rightarrow> py_error + json) \<Rightarrow> ws_event \<Rightarrow> bool" where
  "is_tts_end loads ev =
     (case ev of
        Receive (TextMsg text) \<Rightarrow>
          (case loads text of
             Inl e \<Rightarrow> False
           | Inr data \<Rightarrow> subscript data ''type'' = Inr (JString ''tts_end''))
      | _ \<Rightarrow> False)"

subsection \<open>Asynchronous generators\<close>

text \<open>
  What an \<open>async for\<close> over a collaborator's stream observes: the items yielded, in
  order, and the exception that ended the stream, if one did.
\<close>

type_synonym 'a gen = "'a list \<times> py_error option"

subsection \<open>\<open>core/stt.py\<close>: \<open>stt_stream\<close> of the two adapters\<close>

text \<open>
  The provider behind an adapter: \<open>transcriptions_create\<close> is
  \<open>client.audio.transcriptions.create(...)\<close> called with the adapter's model and the
  audio, returning the transcript text; \<open>transcriptions_create_stream\<close> is the same call
  with \<open>stream=True\<close>, returning the stream's chunks. A chunk has a \<open>delta\<close> attribute
  or has none.
\<close>

datatype stream_chunk = WithDelta string | NoDelta

record stt_client =
  transcriptions_create :: "string \<Rightarrow> int list \<Rightarrow> py_error + string"
  transcriptions_create_stream :: "string \<Rightarrow> int list \<Rightarrow> py_error + stream_chunk gen"

text \<open>\<open>OpenAISTT.stt\<close> and \<open>GroqSTT.stt\<close>.\<close>

definition stt :: "stt_client \<Rightarrow> string \<Rightarrow> int list \<Rightarrow> py_error + string" where
  "stt client model audio_int16 = transcriptions_create client model audio_int16"

fun deltas :: "stream_chunk list \<Rightarrow> string list" where
  "deltas [] = []"
| "deltas (WithDelta d # cs) = d # deltas cs"
| "deltas (NoDelta # cs) = deltas cs"

text \<open>\<open>GroqSTT.stt_stream\<close>: one \<open>yield\<close> of the full transcription.\<close>

definition GroqSTT_stt_stream :: "stt_client \<Rightarrow> string \<Rightarrow> int list \<Rightarrow> string gen" where
  "GroqSTT_stt_stream client model audio_int16 =
     (case stt client model audio_int16 of
        Inl e \<Rightarrow> ([], Some e)
      | Inr transcription_text \<Rightarrow> ([transcription_text], None))"

text \<open>
  \<open>OpenAISTT.stt_stream\<close>: for \<open>whisper-1\<close> the full transcription is yielded; the
  function body then goes on (there is no \<open>return\<close> after the \<open>yield\<close>) to the
  streaming request and yields the \<open>delta\<close> of every chunk that has one.
\<close>

definition OpenAISTT_stt_stream :: "stt_client \<Rightarrow> string \<Rightarrow> int list \<Rightarrow> string gen" where
  "OpenAISTT_stt_stream client model audio_int16 =
     (let first =
            (if model = ''whisper-1'' then
               (case stt client model audio_int16 of
                  Inl e \<Rightarrow> ([], Some e)
                | Inr transcription_text \<Rightarrow> ([transcription_text], None))
             else ([], None))
      in case snd first of
           Some e \<Rightarrow> first
         | None \<Rightarrow>
             (case transcriptions_create_stream client model audio_int16 of
                Inl e \<Rightarrow> (fst first, Some e)
              | Inr (chunks, err) \<Rightarrow> (fst first @ deltas chunks, err)))"

subsection \<open>\<open>core/pipeline.py\<close>: \<open>generate_agent_response\<close> (AgentDriver)\<close>

definition sentence_endings :: "char list" where
  "sentence_endings = [CHR ''.'', CHR ''!'', CHR ''?'', CHR 0x0A]"

text \<open>\<open>str.rfind\<close> for a one-character needle: the highest index holding it, or \<open>-1\<close>.\<close>

fun rfind_from :: "char \<Rightarrow> string \<Rightarrow> int \<Rightarrow> int \<Rightarrow> int" where
  "rfind_from c [] i found = found"
| "rfind_from c (x # xs) i found = rfind_from c xs (i + 1) (if x = c then i else found)"

definition rfind :: "string \<Rightarrow> char \<Rightarrow> int" where
  "rfind s c = rfind_from c s 0 (- 1)"

text \<open>\<open>max\<close> over a generator: \<open>ValueError\<close> when it yields nothing.\<close>

fun py_max :: "int list \<Rightarrow> py_error + int" where
  "py_max [] = Inl ValueError"
| "py_max (x # xs) = Inr (fold max xs x)"

text \<open>
  \<open>text_buffer.strip()\<close> is truthy when some character is not whitespace. Text is
  held as its UTF-8 bytes; \<open>all_space\<close> reads it character by character and accepts
  the characters \<open>str.strip()\<close> removes: the ASCII ones (\<open>is_space\<close>) and U+0085,
  U+00A0, U+1680, U+2000 to U+200A, U+2028, U+2029, U+202F, U+205F, U+3000 in their
  two- and three-byte encodings.
\<close>

definition is_space :: "char \<Rightarrow> bool" where
  "is_space c = (c \<in> set [CHR '' '', CHR 0x09, CHR 0x0A, CHR 0x0B, CHR 0x0C, CHR 0x0D,
                            CHR 0x1C, CHR 0x1D, CHR 0x1E, CHR 0x1F])"

definition space_tail2 :: "char \<Rightarrow> char \<Rightarrow> bool" where
  "space_tail2 c d = (c = CHR 0xC2 \<and> (d = CHR 0x85 \<or> d = CHR 0xA0))"

definition space_tail3 :: "char \<Rightarrow> char \<Rightarrow> char \<Rightarrow> bool" where
  "space_tail3 c d e =
     ((c = CHR 0xE1 \<and> d = CHR 0x9A \<and> e = CHR 0x80)
      \<or> (c = CHR 0xE2 \<and> d = CHR 0x80 \<and>
          e \<in> set [CHR 0x80, CHR 0x81, CHR 0x82, CHR 0x83, CHR 0x84, CHR 0x85, CHR 0x86,
                     CHR 0x87, CHR 0x88, CHR 0x89, CHR 0x8A, CHR 0xA8, CHR 0xA9, CHR 0xAF])
      \<or> (c = CHR 0xE2 \<and> d = CHR 0x81 \<and> e = CHR 0x9F)
      \<or> (c = CHR 0xE3 \<and> d = CHR 0x80 \<and> e = CHR 0x80))"

fun all_space :: "string \<Rightarrow> bool" where
  "all_space [] = True"
| "all_space [c] = is_space c"
| "all_space [c, d] = (if is_space c then is_space d else space_tail2 c d)"
| "all_space (c # d # e # cs) =
     (if is_space c then all_space (d # e # cs)
      else if space_tail2 c d then all_space (e # cs)
      else if space_tail3 c d e then all_space cs
      else False)"

definition strip_truthy :: "string \<Rightarrow> bool" where
  "strip_truthy s = (\<not> all_space s)"

text \<open>
  The local variables of one turn, together with what the turn has done so far: the
  messages passed to \<open>_add_event_message\<close>, in call order, and the texts
  \<open>tts.tts_stream\<close> was called with.
\<close>

record turn_state =
  text_buffer :: string
  first_response_chunk :: bool
  first_speech_chunk :: bool
  emitted :: "event_message list"
  tts_calls :: "string list"

definition emit :: "ResponseEventType \<Rightarrow> event_content option \<Rightarrow> rat option \<Rightarrow> turn_state \<Rightarrow> turn_state" where
  "emit etype content tstamp st =
     st\<lparr>emitted := emitted st @ [create_event_message etype content tstamp]\<rparr>"

text \<open>\<open>async for chunk in self.tts.tts_stream(text)\<close>: one speech delta per chunk
  received; an exception of the stream leaves the loop with the deltas already sent.\<close>

definition stream_tts ::
  "(string \<Rightarrow> int list gen) \<Rightarrow> string \<Rightarrow> turn_state \<Rightarrow> turn_state \<times> py_error option" where
  "stream_tts tts text st =
     (case tts text of
        (chunks, err) \<Rightarrow>
          (fold (\<lambda>chunk. emit AI_RESPONSE_SPEECH_DELTA (Some (Base64Of chunk)) None) chunks
             (st\<lparr>tts_calls := tts_calls st @ [text]\<rparr>),
           err))"

text \<open>The body of \<open>async for chunk in self.agent.generate_stream(transcript)\<close>.\<close>

definition on_agent_chunk ::
  "(string \<Rightarrow> int list gen) \<Rightarrow> turn_state \<Rightarrow> string \<Rightarrow> turn_state \<times> py_error option" where
  "on_agent_chunk tts st chunk =
     (let st1 = st\<lparr>text_buffer := text_buffer st @ chunk\<rparr>;
          st2 = (if first_response_chunk st1
                 then (emit AI_RESPONSE_TEXT_START None None st1)\<lparr>first_response_chunk := False\<rparr>
                 else st1)
      in
        if \<exists>ending \<in> set sentence_endings. ending \<in> set (text_buffer st2) then
          (case py_max (map (rfind (text_buffer st2))
                          (filter (\<lambda>ending. ending \<in> set (text_buffer st2)) sentence_endings)) of
             Inl e \<Rightarrow> (st2, Some e)
           | Inr last_ending_idx \<Rightarrow>
               (let complete_text = py_slice_to (text_buffer st2) (last_ending_idx + 1);
                    st3 = st2\<lparr>text_buffer := py_slice_from (text_buffer st2) (last_ending_idx + 1)\<rparr>
                in
                  if complete_text \<noteq> [] then
                    (let st4 = (if first_speech_chunk st3
                                then (emit AI_RESPONSE_SPEECH_START None None st3)
                                       \<lparr>first_speech_chunk := False\<rparr>
                                else st3);
                         st5 = emit AI_RESPONSE_TEXT_DELTA (Some (Text complete_text)) None st4
                     in stream_tts tts complete_text st5)
                  else (st3, None)))
        else (st2, None))"

fun agent_loop ::
  "(string \<Rightarrow> int list gen) \<Rightarrow> turn_state \<Rightarrow> string list \<Rightarrow> turn_state \<times> py_error option" where
  "agent_loop tts st [] = (st, None)"
| "agent_loop tts st (chunk # chunks) =
     (case on_agent_chunk tts st chunk of
        (st', Some e) \<Rightarrow> (st', Some e)
      | (st', None) \<Rightarrow> agent_loop tts st' chunks)"

text \<open>
  One iteration of the stage's \<open>while\<close> loop for a dequeued chunk: the full
  transcript event, the agent stream, the remaining text, the two end events. An
  exception anywhere leaves the iteration at that point.
\<close>

definition run_turn ::
  "(string option \<Rightarrow> string gen) \<Rightarrow> (string \<Rightarrow> int list gen) \<Rightarrow> audio_chunk
     \<Rightarrow> turn_state \<times> py_error option" where
  "run_turn agent tts audio_chunk =
     (let st0 = emit TRANSCRIPTION_TEXT (map_option Text (transcript audio_chunk))
                  (Some (timestamp audio_chunk))
                  \<lparr>text_buffer = [], first_response_chunk = True, first_speech_chunk = True,
                   emitted = [], tts_calls = []\<rparr>
      in case agent (transcript audio_chunk) of
           (chunks, agent_err) \<Rightarrow>
             (case agent_loop tts st0 chunks of
                (st1, Some e) \<Rightarrow> (st1, Some e)
              | (st1, None) \<Rightarrow>
                  (case agent_err of
                     Some e \<Rightarrow> (st1, Some e)
                   | None \<Rightarrow>
                       (case (if strip_truthy (text_buffer st1)
                              then stream_tts tts (text_buffer st1)
                                     (emit AI_RESPONSE_TEXT_DELTA (Some (Text (text_buffer st1))) None st1)
                              else (st1, None)) of
                          (st2, Some e) \<Rightarrow> (st2, Some e)
                        | (st2, None) \<Rightarrow>
                            (emit AI_RESPONSE_SPEECH_END None None
                               (emit AI_RESPONSE_TEXT_END None None st2), None)))))"

text \<open>
  The stage over the chunks waiting in the transcription queue, oldest first. Each
  event of a turn is offered to the response queue (whose consumer is not run in
  between); an exception of a turn is logged by the outermost handler and the task
  returns.
\<close>

fun drive_agent ::
  "(string option \<Rightarrow> string gen) \<Rightarrow> (string \<Rightarrow> int list gen) \<Rightarrow> voice_pipeline
     \<Rightarrow> audio_chunk list \<Rightarrow> voice_pipeline \<times> task_outcome" where
  "drive_agent agent tts p [] = (p, Running)"
| "drive_agent agent tts p (audio_chunk # waiting) =
     (let p1 = p\<lparr>transcription_queue := (transcription_queue p)\<lparr>items := waiting\<rparr>\<rparr> in
      case run_turn agent tts audio_chunk of
        (st, Some e) \<Rightarrow>
          ((fold (\<lambda>m q. add_response q m) (emitted st) p1)
             \<lparr>logs := logs (fold (\<lambda>m q. add_response q m) (emitted st) p1) @ [LogException e]\<rparr>,
           TaskEnded e)
      | (st, None) \<Rightarrow> drive_agent agent tts (fold (\<lambda>m q. add_response q m) (emitted st) p1) waiting)"

definition generate_agent_response ::
  "(string option \<Rightarrow> string gen) \<Rightarrow> (string \<Rightarrow> int list gen) \<Rightarrow> voice_pipeline
     \<Rightarrow> voice_pipeline \<times> task_outcome" where
  "generate_agent_response agent tts p = drive_agent agent tts p (items (transcription_queue p))"

text \<open>The two events that close a turn's brackets.\<close>

definition is_end_event :: "event_message \<Rightarrow> bool" where
  "is_end_event m = (ev_type m = AI_RESPONSE_TEXT_END \<or> ev_type m = AI_RESPONSE_SPEECH_END)"

text \<open>The types of the events a turn has emitted, and the text deltas among them.\<close>

definition emitted_types :: "turn_state \<Rightarrow> ResponseEventType list" where
  "emitted_types st = map ev_type (emitted st)"

fun text_deltas :: "event_message list \<Rightarrow> string list" where
  "text_deltas [] = []"
| "text_deltas (m # ms) =
     (case (ev_type m, ev_content m) of
        (AI_RESPONSE_TEXT_DELTA, Some (Text s)) \<Rightarrow> s # text_deltas ms
      | _ \<Rightarrow> text_deltas ms)"

subsection \<open>Queue lemmas\<close>

lemma add_queue_no_wait_full:
  "full q \<Longrightarrow> add_queue_no_wait q x = q"
  by (simp add: add_queue_no_wait_def add_queue_no_wait_log_def put_nowait_def)

lemma add_queue_no_wait_room:
  "\<not> full q \<Longrightarrow> add_queue_no_wait q x = q\<lparr>items := items q @ [x]\<rparr>"
  by (simp add: add_queue_no_wait_def add_queue_no_wait_log_def put_nowait_def)

lemma add_queue_no_wait_maxsize [simp]:
  "maxsize (add_queue_no_wait q x) = maxsize q"
  by (cases "full q") (simp_all add: add_queue_no_wait_full add_queue_no_wait_room)

lemma run_queue_bounded:
  "run_queue q seen ops = (q', seen') \<Longrightarrow> 0 < maxsize q \<Longrightarrow>
   int (length (items q)) \<le> maxsize q \<Longrightarrow>
     maxsize q' = maxsize q \<and> int (length (items q')) \<le> maxsize q"
proof (induction q seen ops arbitrary: q' seen' rule: run_queue.induct)
  case (1 q seen)
  then show ?case by auto
next
  case (2 q seen x ops)
  have len: "int (length (items (add_queue_no_wait q x))) \<le> maxsize (add_queue_no_wait q x)"
    using 2(3,4) by (cases "full q") (auto simp: add_queue_no_wait_full add_queue_no_wait_room full_def)
  from 2(2) have run: "run_queue (add_queue_no_wait q x) seen ops = (q', seen')" by simp
  from 2(3) have pos: "0 < maxsize (add_queue_no_wait q x)" by simp
  from 2(1)[OF run pos len] show ?case by simp
next
  case (3 q seen ops)
  show ?case
  proof (cases "items q")
    case Nil
    with 3(3) have "run_queue q seen ops = (q', seen')" by (simp add: get_nowait_def)
    from 3(1)[OF _ this 3(4,5)] Nil show ?thesis by (simp add: get_nowait_def)
  next
    case (Cons x xs)
    then have g: "get_nowait q = Inr (x, q\<lparr>items := xs\<rparr>)" by (simp add: get_nowait_def)
    with 3(3) have run: "run_queue (q\<lparr>items := xs\<rparr>) (seen @ [x]) ops = (q', seen')" by simp
    have "0 < maxsize (q\<lparr>items := xs\<rparr>)"
      "int (length (items (q\<lparr>items := xs\<rparr>))) \<le> maxsize (q\<lparr>items := xs\<rparr>)"
      using 3(4,5) Cons by simp_all
    from 3(2)[OF g refl run this] show ?thesis by simp
  qed
qed


lemma full_at_capacity:
  "maxsize q = MAX_QUEUE_SIZE \<Longrightarrow> full q = (length (items q) \<ge> 60)"
  by (simp add: full_def MAX_QUEUE_SIZE_def)

lemma run_queue_drop_newest:
  "run_queue q seen ops = (q', seen') \<Longrightarrow> maxsize q = MAX_QUEUE_SIZE \<Longrightarrow>
     seen' @ items q' = seen @ items q @ drop_newest (length (items q)) ops"
proof (induction q seen ops arbitrary: q' seen' rule: run_queue.induct)
  case (1 q seen)
  then show ?case by simp
next
  case (2 q seen x ops)
  from 2(2) have run: "run_queue (add_queue_no_wait q x) seen ops = (q', seen')" by simp
  from 2(3) have m: "maxsize (add_queue_no_wait q x) = MAX_QUEUE_SIZE" by simp
  note ih = 2(1)[OF run m]
  show ?case
  proof (cases "length (items q) \<ge> 60")
    case True
    with 2(3) have "full q" by (simp add: full_at_capacity)
    then have "add_queue_no_wait q x = q" by (rule add_queue_no_wait_full)
    with ih True show ?thesis by simp
  next
    case False
    with 2(3) have "\<not> full q" by (simp add: full_at_capacity)
    then have "add_queue_no_wait q x = q\<lparr>items := items q @ [x]\<rparr>"
      by (rule add_queue_no_wait_room)
    with ih False show ?thesis by simp
  qed
next
  case (3 q seen ops)
  show ?case
  proof (cases "items q")
    case Nil
    with 3(3) have run: "run_queue q seen ops = (q', seen')" by (simp add: get_nowait_def)
    from Nil have g: "get_nowait q = Inl QueueEmpty" by (simp add: get_nowait_def)
    from 3(1)[OF g run 3(4)] Nil show ?thesis by simp
  next
    case (Cons y ys)
    then have g: "get_nowait q = Inr (y, q\<lparr>items := ys\<rparr>)" by (simp add: get_nowait_def)
    with 3(3) have run: "run_queue (q\<lparr>items := ys\<rparr>) (seen @ [y]) ops = (q', seen')" by simp
    from 3(4) have m: "maxsize (q\<lparr>items := ys\<rparr>) = MAX_QUEUE_SIZE" by simp
    from 3(2)[OF g refl run m] Cons show ?thesis by simp
  qed
qed

lemma drop_newest_subseq: "subseq (drop_newest n ops) (offered ops)"
  by (induction n ops rule: drop_newest.induct) (simp_all add: list_emb_Cons)

lemma drop_newest_unsaturated: "\<not> saturated n ops \<Longrightarrow> drop_newest n ops = offered ops"
  by (induction n ops rule: drop_newest.induct) (simp_all split: if_splits)

lemma saturated_room: "n + length (offered ops) \<le> 60 \<Longrightarrow> \<not> saturated n ops"
  by (induction n ops rule: saturated.induct) (simp_all split: if_splits)

subsection \<open>C9: drop-newest, FIFO\<close>

text \<open>
  C9. Every inter-stage queue is created with capacity \<open>_MAX_QUEUE_SIZE = 60\<close>. For such
  a queue, an enqueue attempt through \<open>_add_queue_no_wait\<close> when 60 items are waiting
  returns the queue exactly as it was and writes one warning (no exception reaches the
  caller); with fewer than 60 waiting the item is appended at the tail and nothing is
  logged; the consumer takes the oldest item. For every interleaving of offers and
  takes, what the consumer has seen followed by what is still queued is what was seen
  and queued before followed by exactly the offers the drop-newest policy delivers
  (an offer is lost only when it meets 60 waiting items), in the producer's order; in
  particular, when no offer meets a full queue, every offered item is there, in order.
  The queue never holds more than 60.
\<close>

theorem queue_drop_newest_fifo:
  fixes q :: "'a queue" and x :: 'a and ops :: "'a queue_op list" and seen :: "'a list"
  assumes "maxsize q = MAX_QUEUE_SIZE"
  shows "(length (items q) \<ge> 60 \<longrightarrow>
            add_queue_no_wait q x = q \<and> add_queue_no_wait_log q x = (q, 1))
       \<and> (length (items q) < 60 \<longrightarrow>
            add_queue_no_wait q x = q\<lparr>items := items q @ [x]\<rparr>
          \<and> add_queue_no_wait_log q x = (q\<lparr>items := items q @ [x]\<rparr>, 0))
       \<and> (\<forall>y ys. items q = y # ys \<longrightarrow> get_nowait q = Inr (y, q\<lparr>items := ys\<rparr>))
       \<and> snd (run_queue q seen ops) @ items (fst (run_queue q seen ops))
           = seen @ items q @ drop_newest (length (items q)) ops
       \<and> subseq (drop_newest (length (items q)) ops) (offered ops)
       \<and> (\<not> saturated (length (items q)) ops \<longrightarrow>
            snd (run_queue q seen ops) @ items (fst (run_queue q seen ops))
              = seen @ items q @ offered ops)
       \<and> (length (items q) + length (offered ops) \<le> 60 \<longrightarrow>
            snd (run_queue q seen ops) @ items (fst (run_queue q seen ops))
              = seen @ items q @ offered ops)
       \<and> (length (items q) \<le> 60 \<longrightarrow> length (items (fst (run_queue q seen ops))) \<le> 60)
       \<and> subseq (snd (run_queue (new_queue MAX_QUEUE_SIZE) [] ops)
                 @ items (fst (run_queue (new_queue MAX_QUEUE_SIZE) [] ops))) (offered ops)"
proof -
  let ?r = "run_queue q seen ops"
  let ?n = "run_queue (new_queue MAX_QUEUE_SIZE :: 'a queue) [] ops"
  have a: "length (items q) \<ge> 60 \<longrightarrow>
            add_queue_no_wait q x = q \<and> add_queue_no_wait_log q x = (q, 1)"
    using assms
    by (simp add: add_queue_no_wait_def add_queue_no_wait_log_def put_nowait_def full_def
        MAX_QUEUE_SIZE_def)
  have b: "length (items q) < 60 \<longrightarrow>
            add_queue_no_wait q x = q\<lparr>items := items q @ [x]\<rparr>
          \<and> add_queue_no_wait_log q x = (q\<lparr>items := items q @ [x]\<rparr>, 0)"
    using assms
    by (simp add: add_queue_no_wait_def add_queue_no_wait_log_def put_nowait_def full_def
        MAX_QUEUE_SIZE_def)
  have c: "\<forall>y ys. items q = y # ys \<longrightarrow> get_nowait q = Inr (y, q\<lparr>items := ys\<rparr>)"
    by (simp add: get_nowait_def)
  have r: "?r = (fst ?r, snd ?r)" by simp
  from run_queue_drop_newest[OF r assms]
  have d: "snd ?r @ items (fst ?r) = seen @ items q @ drop_newest (length (items q)) ops" .
  have e: "subseq (drop_newest (length (items q)) ops) (offered ops)"
    by (rule drop_newest_subseq)
  have f: "\<not> saturated (length (items q)) ops \<longrightarrow>
            snd ?r @ items (fst ?r) = seen @ items q @ offered ops"
    using d by (simp add: drop_newest_unsaturated)
  have g: "length (items q) + length (offered ops) \<le> 60 \<longrightarrow>
            snd ?r @ items (fst ?r) = seen @ items q @ offered ops"
    using f saturated_room[of "length (items q)" ops] by blast
  have h: "length (items q) \<le> 60 \<longrightarrow> length (items (fst ?r)) \<le> 60"
  proof
    assume "length (items q) \<le> 60"
    with assms have "0 < maxsize q" "int (length (items q)) \<le> maxsize q"
      by (simp_all add: MAX_QUEUE_SIZE_def)
    from run_queue_bounded[OF r this] assms show "length (items (fst ?r)) \<le> 60"
      by (simp add: MAX_QUEUE_SIZE_def)
  qed
  have rn: "?n = (fst ?n, snd ?n)" by simp
  have "maxsize (new_queue MAX_QUEUE_SIZE :: 'a queue) = MAX_QUEUE_SIZE" by (simp add: new_queue_def)
  from run_queue_drop_newest[OF rn this]
  have "snd ?n @ items (fst ?n) = drop_newest 0 ops" by (simp add: new_queue_def)
  with drop_newest_subseq[of 0 ops] have i: "subseq (snd ?n @ items (fst ?n)) (offered ops)"
    by simp
  from a b c d e f g h i show ?thesis by blast
qed

theorem queue_drop_newest_fifo_witness:
  "maxsize \<lparr>maxsize = 60, items = replicate 60 (0::nat)\<rparr> = MAX_QUEUE_SIZE
   \<and> add_queue_no_wait \<lparr>maxsize = 60, items = replicate 60 (0::nat)\<rparr> 7
       = \<lparr>maxsize = 60, items = replicate 60 0\<rparr>
   \<and> add_queue_no_wait_log \<lparr>maxsize = 60, items = replicate 60 (0::nat)\<rparr> 7
       = (\<lparr>maxsize = 60, items = replicate 60 0\<rparr>, 1)
   \<and> snd (run_queue \<lparr>maxsize = 60, items = replicate 60 (0::nat)\<rparr> [] [Offer 7, Take, Offer 8])
       @ items (fst (run_queue \<lparr>maxsize = 60, items = replicate 60 (0::nat)\<rparr> []
                       [Offer 7, Take, Offer 8]))
       = replicate 60 0 @ [8]
   \<and> add_queue_no_wait \<lparr>maxsize = 60, items = [1, 2 :: nat]\<rparr> 7 = \<lparr>maxsize = 60, items = [1, 2, 7]\<rparr>
   \<and> get_nowait \<lparr>maxsize = 60, items = [1, 2 :: nat]\<rparr> = Inr (1, \<lparr>maxsize = 60, items = [2]\<rparr>)
   \<and> \<not> saturated (length (items \<lparr>maxsize = 60, items = [1, 2 :: nat]\<rparr>))
         [Offer (7::nat), Take, Offer 8]
   \<and> snd (run_queue \<lparr>maxsize = 60, items = [1, 2 :: nat]\<rparr> [] [Offer 7, Take, Offer 8])
       @ items (fst (run_queue \<lparr>maxsize = 60, items = [1, 2 :: nat]\<rparr> [] [Offer 7, Take, Offer 8]))
       = [1, 2, 7, 8]"
proof -
  let ?F = "\<lparr>maxsize = 60, items = replicate 60 (0::nat)\<rparr>"
  let ?R = "\<lparr>maxsize = 60, items = [1, 2 :: nat]\<rparr>"
  let ?ops = "[Offer 7, Take, Offer (8::nat)]"
  have h1: "maxsize ?F = MAX_QUEUE_SIZE" by (simp add: MAX_QUEUE_SIZE_def)
  have h2: "maxsize ?R = MAX_QUEUE_SIZE" by (simp add: MAX_QUEUE_SIZE_def)
  have h3: "\<not> saturated (length (items ?R)) ?ops" by simp
  have lf: "length (items ?F) \<ge> 60" by simp
  have lr: "length (items ?R) < 60" by simp
  have ne: "items ?R = 1 # [2]" by simp
  note f = queue_drop_newest_fifo [OF h1, of 7 "[]" ?ops]
  note r = queue_drop_newest_fifo [OF h2, of 7 "[]" ?ops]
  from f lf have f1: "add_queue_no_wait ?F 7 = ?F" and f2: "add_queue_no_wait_log ?F 7 = (?F, 1)"
    by blast+
  from f have "snd (run_queue ?F [] ?ops) @ items (fst (run_queue ?F [] ?ops))
       = [] @ items ?F @ drop_newest (length (items ?F)) ?ops" by blast
  moreover have "[] @ items ?F @ drop_newest (length (items ?F)) ?ops = replicate 60 0 @ [8]"
    by simp
  ultimately have f3: "snd (run_queue ?F [] ?ops) @ items (fst (run_queue ?F [] ?ops))
       = replicate 60 0 @ [8]" by (rule trans)
  from r lr have "add_queue_no_wait ?R 7 = ?R\<lparr>items := items ?R @ [7]\<rparr>" by blast
  moreover have "?R\<lparr>items := items ?R @ [7]\<rparr> = \<lparr>maxsize = 60, items = [1, 2, 7]\<rparr>" by simp
  ultimately have r1: "add_queue_no_wait ?R 7 = \<lparr>maxsize = 60, items = [1, 2, 7]\<rparr>" by (rule trans)
  from r ne have "get_nowait ?R = Inr (1, ?R\<lparr>items := [2]\<rparr>)" by blast
  moreover have "Inr (1::nat, ?R\<lparr>items := [2]\<rparr>) = (Inr (1, \<lparr>maxsize = 60, items = [2]\<rparr>) :: py_error + nat \<times> nat queue)"
    by simp
  ultimately have r2: "get_nowait ?R = Inr (1, \<lparr>maxsize = 60, items = [2]\<rparr>)" by (rule trans)
  from r h3 have "snd (run_queue ?R [] ?ops) @ items (fst (run_queue ?R [] ?ops))
       = [] @ items ?R @ offered ?ops" by blast
  moreover have "[] @ items ?R @ offered ?ops = [1, 2, 7, 8]" by simp
  ultimately have r3: "snd (run_queue ?R [] ?ops) @ items (fst (run_queue ?R [] ?ops)) = [1, 2, 7, 8]"
    by (rule trans)
  from h1 f1 f2 f3 r1 r2 h3 r3 show ?thesis by blast
qed

subsection \<open>Ingest lemmas\<close>

lemma ingest_bytes_while_playing:
  "is_tts_playing p \<Longrightarrow> ingest_message loads p (BytesMsg raw) = Inr p"
  by (simp add: ingest_message_def)

lemma ingest_message_keeps_gate:
  assumes "is_tts_playing p" and "\<not> is_tts_end loads (Receive m)"
    and "ingest_message loads p m = Inr p'"
  shows "is_tts_playing p' \<and> incoming_queue p' = incoming_queue p"
proof (cases m)
  case (BytesMsg bs)
  with assms show ?thesis by (simp add: ingest_message_def)
next
  case (TextMsg t)
  with assms show ?thesis
    by (auto simp: ingest_message_def is_tts_end_def split: sum.splits if_splits)
next
  case OtherMsg
  with assms show ?thesis by (simp add: ingest_message_def)
qed

lemma process_incoming_data_gate:
  "is_tts_playing p \<Longrightarrow> \<forall>ev \<in> set evs. \<not> is_tts_end loads ev \<Longrightarrow>
     incoming_queue (fst (process_incoming_data loads p evs)) = incoming_queue p"
proof (induction loads p evs rule: process_incoming_data.induct)
  case (1 loads p)
  then show ?case by simp
next
  case (2 loads p evs)
  then show ?case by simp
next
  case (3 loads p e evs)
  then show ?case by simp
next
  case (4 loads p data evs)
  show ?case
  proof (cases "ingest_message loads p data")
    case (Inl e)
    then show ?thesis by simp
  next
    case (Inr p')
    from 4(3) have nd: "\<not> is_tts_end loads (Receive data)" by simp
    from ingest_message_keeps_gate[OF 4(2) nd Inr]
    have k: "is_tts_playing p'" "incoming_queue p' = incoming_queue p" by simp_all
    from 4(3) have rest: "\<forall>ev \<in> set evs. \<not> is_tts_end loads ev" by simp
    from 4(1)[OF Inr k(1) rest] k(2) Inr show ?thesis by simp
  qed
qed

lemma be_uint_snoc: "be_uint (bs @ [b]) = be_uint bs * 256 + unat b"
  by (simp add: be_uint_def)

lemma add_incoming_room:
  "\<not> full (incoming_queue p) \<Longrightarrow>
     add_incoming p c = p\<lparr>incoming_queue := (incoming_queue p)\<lparr>items := items (incoming_queue p) @ [c]\<rparr>\<rparr>"
  by (simp add: add_incoming_def add_queue_no_wait_log_def put_nowait_def)

lemma ingest_bytes_clear:
  assumes "\<not> is_tts_playing p" and "header_bytes (config p) = 10" and "10 \<le> length raw"
    and "be_uint (take 8 (drop 2 raw)) div 1000 \<le> datetime_max_seconds"
  shows "ingest_message loads p (BytesMsg raw)
           = Inr (add_incoming p
                    \<lparr>flag = be_uint (take 2 raw),
                     timestamp = of_nat (be_uint (take 8 (drop 2 raw)) div 1000),
                     audio = PCMBytes (drop 10 raw),
                     transcript = None\<rparr>)"
proof -
  from assms(3) have n: "norm_index (length raw) 10 = 10" by (simp add: norm_index_def)
  have t2: "take 2 (take 10 raw) = take 2 raw" by simp
  have d2: "drop 2 (take 10 raw) = take 8 (drop 2 raw)" by (simp add: drop_take)
  from assms(3) have u: "struct_unpack_HQ (py_slice_to raw 10)
        = Inr (be_uint (take 2 raw), be_uint (take 8 (drop 2 raw)))"
    by (simp add: struct_unpack_HQ_def py_slice_to_def n t2 d2)
  from assms(1,2,3,4) show ?thesis
    by (simp add: ingest_message_def u py_slice_from_def n datetime_roundtrip_def)
qed

lemma ingest_sample_frame:
  "ingest_message loads (VoicePipeline PipelineConfig)
       (BytesMsg [0, 1, 0, 0, 0, 0, 0, 0, 5, 220, 1, 2])
     = Inr ((VoicePipeline PipelineConfig)
              \<lparr>incoming_queue :=
                 \<lparr>maxsize = 60,
                  items = [\<lparr>flag = 1, timestamp = 1, audio = PCMBytes [1, 2],
                            transcript = None\<rparr>]\<rparr>\<rparr>)"
  by (simp add: ingest_message_def VoicePipeline_def PipelineConfig_def new_queue_def
      MAX_QUEUE_SIZE_def py_slice_to_def py_slice_from_def norm_index_def struct_unpack_HQ_def
      be_uint_def datetime_roundtrip_def datetime_max_seconds_def add_incoming_def
      add_queue_no_wait_log_def put_nowait_def full_def)

lemma resampler_empty: "audio_resampler poly (PCMBytes []) r = Inl ValueError"
  by (simp add: audio_resampler_def frombuffer_int16_def)

lemma process_empty_chunk:
  "audio c = PCMBytes [] \<Longrightarrow> process_audio_chunk poly vad vp c = (vp\<lparr>audio_buffer := []\<rparr>, Inl ValueError)"
  by (simp add: process_audio_chunk_def resample_audio_def resampler_empty)

subsection \<open>C6: frames are dropped while the TTS-playing flag is set\<close>

text \<open>
  C6. A text message whose \<open>type\<close> is \<open>tts_start\<close> sets the TTS-playing flag. With the
  flag set, a binary message leaves the whole pipeline state as it is (nothing is
  enqueued, nothing is logged). For every sequence of channel events that follows a
  \<open>tts_start\<close> and contains no \<open>tts_end\<close> message (binary frames, other control
  messages, timeouts, in any order), the incoming queue after the sequence is the
  incoming queue before it.
\<close>

theorem tts_playing_drops_frames:
  assumes "loads text = Inr data"
    and "subscript data ''type'' = Inr (JString ''tts_start'')"
    and "\<forall>ev \<in> set evs. \<not> is_tts_end loads ev"
  shows "ingest_message loads p (TextMsg text) = Inr (p\<lparr>is_tts_playing := True\<rparr>)
       \<and> ingest_message loads (p\<lparr>is_tts_playing := True\<rparr>) (BytesMsg raw)
           = Inr (p\<lparr>is_tts_playing := True\<rparr>)
       \<and> incoming_queue (fst (process_incoming_data loads p (Receive (TextMsg text) # evs)))
           = incoming_queue p"
proof -
  from assms(1,2) have a: "ingest_message loads p (TextMsg text) = Inr (p\<lparr>is_tts_playing := True\<rparr>)"
    by (simp add: ingest_message_def)
  have b: "ingest_message loads (p\<lparr>is_tts_playing := True\<rparr>) (BytesMsg raw)
           = Inr (p\<lparr>is_tts_playing := True\<rparr>)"
    by (rule ingest_bytes_while_playing) simp
  have "incoming_queue (fst (process_incoming_data loads (p\<lparr>is_tts_playing := True\<rparr>) evs))
          = incoming_queue (p\<lparr>is_tts_playing := True\<rparr>)"
    by (rule process_incoming_data_gate[OF _ assms(3)]) simp
  with a have c: "incoming_queue (fst (process_incoming_data loads p (Receive (TextMsg text) # evs)))
           = incoming_queue p"
    by simp
  from a b c show ?thesis by blast
qed

theorem tts_playing_drops_frames_witness:
  \<open>loads_table [(''{"type":"tts_start"}'', JObject [(''type'', JString ''tts_start'')])]
       ''{"type":"tts_start"}'' = Inr (JObject [(''type'', JString ''tts_start'')])
   \<and> subscript (JObject [(''type'', JString ''tts_start'')]) ''type'' = Inr (JString ''tts_start'')
   \<and> \<not> is_tts_end (loads_table [(''{"type":"tts_start"}'', JObject [(''type'', JString ''tts_start'')])])
         (Receive (BytesMsg [0, 1, 0, 0, 0, 0, 0, 0, 5, 220, 1, 2]))
   \<and> \<not> is_tts_end (loads_table [(''{"type":"tts_start"}'', JObject [(''type'', JString ''tts_start'')])])
         Timeout
   \<and> incoming_queue (fst (process_incoming_data
           (loads_table [(''{"type":"tts_start"}'', JObject [(''type'', JString ''tts_start'')])])
           (VoicePipeline PipelineConfig)
           [Receive (TextMsg ''{"type":"tts_start"}''),
            Receive (BytesMsg [0, 1, 0, 0, 0, 0, 0, 0, 5, 220, 1, 2]), Timeout]))
       = incoming_queue (VoicePipeline PipelineConfig)\<close>
proof -
  let ?L = \<open>loads_table [(''{"type":"tts_start"}'', JObject [(''type'', JString ''tts_start'')])]\<close>
  have h1: \<open>?L ''{"type":"tts_start"}'' = Inr (JObject [(''type'', JString ''tts_start'')])\<close>
    by (simp add: loads_table_def)
  have h2: "subscript (JObject [(''type'', JString ''tts_start'')]) ''type'' = Inr (JString ''tts_start'')"
    by (simp add: subscript_def)
  have h3: "\<forall>ev \<in> set [Receive (BytesMsg [0, 1, 0, 0, 0, 0, 0, 0, 5, 220, 1, 2]), Timeout].
         \<not> is_tts_end ?L ev"
    by (simp add: is_tts_end_def)
  have h4: "\<not> is_tts_end ?L (Receive (BytesMsg [0, 1, 0, 0, 0, 0, 0, 0, 5, 220, 1, 2]))"
    and h5: "\<not> is_tts_end ?L Timeout"
    by (simp_all add: is_tts_end_def)
  from tts_playing_drops_frames [of ?L _ _ _ "VoicePipeline PipelineConfig", OF h1 h2 h3] h1 h2 h4 h5
  show ?thesis by blast
qed

subsection \<open>C5: a text message that is not valid JSON\<close>

text \<open>
  C5 (as the code has it). For every text message that \<open>json.loads\<close> rejects, the
  exception leaves the receive loop: the outermost handler logs it and the Ingest task
  returns, so no later message of the channel is read, whatever follows.
\<close>

theorem invalid_json_ends_ingest:
  assumes "loads t = Inl JSONDecodeError"
  shows "process_incoming_data loads p (Receive (TextMsg t) # evs)
           = (p\<lparr>logs := logs p @ [LogException JSONDecodeError]\<rparr>, TaskEnded JSONDecodeError)"
  using assms by (simp add: ingest_message_def)

theorem invalid_json_ends_ingest_witness:
  "loads_table [] ''{'' = Inl JSONDecodeError
   \<and> process_incoming_data (loads_table []) (VoicePipeline PipelineConfig)
         [Receive (TextMsg ''{''), Receive (BytesMsg [0, 1, 0, 0, 0, 0, 0, 0, 5, 220, 1, 2])]
       = ((VoicePipeline PipelineConfig)\<lparr>logs := [LogException JSONDecodeError]\<rparr>,
          TaskEnded JSONDecodeError)"
proof -
  have h: "loads_table [] ''{'' = Inl JSONDecodeError" by (simp add: loads_table_def)
  from invalid_json_ends_ingest [of "loads_table []" "''{''" "VoicePipeline PipelineConfig"
         "[Receive (BytesMsg [0, 1, 0, 0, 0, 0, 0, 0, 5, 220, 1, 2])]", OF h] h
  show ?thesis by (simp add: VoicePipeline_def)
qed

text \<open>
  C5 as stated fails: after the text \<open>{\<close> the task has ended and the frame that follows
  is never enqueued, although the same frame alone is.
\<close>

theorem invalid_json_counterexample:
  "snd (process_incoming_data (loads_table []) (VoicePipeline PipelineConfig)
         [Receive (TextMsg ''{''), Receive (BytesMsg [0, 1, 0, 0, 0, 0, 0, 0, 5, 220, 1, 2])])
     = TaskEnded JSONDecodeError
   \<and> items (incoming_queue (fst (process_incoming_data (loads_table []) (VoicePipeline PipelineConfig)
         [Receive (TextMsg ''{''), Receive (BytesMsg [0, 1, 0, 0, 0, 0, 0, 0, 5, 220, 1, 2])]))) = []
   \<and> items (incoming_queue (fst (process_incoming_data (loads_table []) (VoicePipeline PipelineConfig)
         [Receive (BytesMsg [0, 1, 0, 0, 0, 0, 0, 0, 5, 220, 1, 2])])))
       = [\<lparr>flag = 1, timestamp = 1, audio = PCMBytes [1, 2], transcript = None\<rparr>]"
proof -
  have a: "ingest_message (loads_table []) (VoicePipeline PipelineConfig) (TextMsg ''{'')
             = Inl JSONDecodeError"
    by (simp add: ingest_message_def loads_table_def)
  have e: "items (incoming_queue (VoicePipeline PipelineConfig)) = []"
    by (simp add: VoicePipeline_def new_queue_def)
  show ?thesis
    by (simp add: a e ingest_sample_frame)
qed

subsection \<open>C4: header parsing\<close>

text \<open>
  C4 (as the code has it). For every binary message of at least 10 bytes received while
  the TTS-playing flag is clear (\<open>header_bytes = 10\<close>, the header's seconds within the
  range of \<open>datetime\<close>, the incoming queue not full), Ingest reads the first two bytes as
  a big-endian flag and the next eight as a big-endian \<open>timestamp_ms\<close>, takes the
  remainder as payload, and appends to the incoming queue a chunk with that flag, that
  payload and the timestamp \<open>timestamp_ms // 1000\<close>: whole seconds, the milliseconds
  are discarded.
\<close>

theorem ingest_parses_header:
  assumes "\<not> is_tts_playing p" and "header_bytes (config p) = 10" and "10 \<le> length raw"
    and "be_uint (take 8 (drop 2 raw)) div 1000 \<le> datetime_max_seconds"
    and "\<not> full (incoming_queue p)"
  shows "\<exists>p'. ingest_message loads p (BytesMsg raw) = Inr p'
          \<and> items (incoming_queue p') = items (incoming_queue p) @
               [\<lparr>flag = unat (raw ! 0) * 256 + unat (raw ! 1),
                 timestamp = of_nat (be_uint (take 8 (drop 2 raw)) div 1000),
                 audio = PCMBytes (drop 10 raw),
                 transcript = None\<rparr>]"
proof -
  from assms(3) obtain a b rest where r: "raw = a # b # rest"
    by (cases raw; cases "tl raw") auto
  then have f: "be_uint (take 2 raw) = unat (raw ! 0) * 256 + unat (raw ! 1)"
    by (simp add: be_uint_def)
  from ingest_bytes_clear[OF assms(1-4)] add_incoming_room[OF assms(5)] f
  show ?thesis by simp
qed

theorem ingest_parses_header_witness:
  "\<not> is_tts_playing (VoicePipeline PipelineConfig)
   \<and> header_bytes (config (VoicePipeline PipelineConfig)) = 10
   \<and> 10 \<le> length [0, 1, 0, 0, 0, 0, 0, 0, 5, 220, 1, 2 :: byte]
   \<and> be_uint (take 8 (drop 2 [0, 1, 0, 0, 0, 0, 0, 0, 5, 220, 1, 2])) div 1000 \<le> datetime_max_seconds
   \<and> \<not> full (incoming_queue (VoicePipeline PipelineConfig))
   \<and> (\<exists>p'. ingest_message (loads_table []) (VoicePipeline PipelineConfig)
               (BytesMsg [0, 1, 0, 0, 0, 0, 0, 0, 5, 220, 1, 2]) = Inr p'
          \<and> items (incoming_queue p') =
               [\<lparr>flag = 1, timestamp = 1, audio = PCMBytes [1, 2], transcript = None\<rparr>])"
proof -
  have h1: "\<not> is_tts_playing (VoicePipeline PipelineConfig)"
    and h2: "header_bytes (config (VoicePipeline PipelineConfig)) = 10"
    and h5: "\<not> full (incoming_queue (VoicePipeline PipelineConfig))"
    by (simp_all add: VoicePipeline_def PipelineConfig_def full_def new_queue_def MAX_QUEUE_SIZE_def)
  have h3: "10 \<le> length [0, 1, 0, 0, 0, 0, 0, 0, 5, 220, 1, 2 :: byte]" by simp
  have h4: "be_uint (take 8 (drop 2 [0, 1, 0, 0, 0, 0, 0, 0, 5, 220, 1, 2])) div 1000 \<le> datetime_max_seconds"
    by (simp add: be_uint_def datetime_max_seconds_def)
  have e: "items (incoming_queue (VoicePipeline PipelineConfig)) = []"
    by (simp add: VoicePipeline_def new_queue_def)
  have v: "be_uint [0, 0, 0, 0, 0, 0, 5, 220] = 1500"
    by (simp add: be_uint_def)
  from ingest_parses_header [of "VoicePipeline PipelineConfig"
          "[0, 1, 0, 0, 0, 0, 0, 0, 5, 220, 1, 2]" "loads_table []", OF h1 h2 h3 h4 h5]
       h1 h2 h3 h4 h5
  show ?thesis by (simp add: e v)
qed

text \<open>
  C4 as stated fails: a header with \<open>timestamp_ms = 1500\<close> gives the timestamp \<open>1\<close>, not
  \<open>1500 / 1000\<close>.
\<close>

theorem ingest_timestamp_counterexample:
  "ingest_message (loads_table []) (VoicePipeline PipelineConfig)
       (BytesMsg [0, 1, 0, 0, 0, 0, 0, 0, 5, 220, 1, 2])
     = Inr ((VoicePipeline PipelineConfig)
              \<lparr>incoming_queue :=
                 \<lparr>maxsize = 60,
                  items = [\<lparr>flag = 1, timestamp = 1, audio = PCMBytes [1, 2],
                            transcript = None\<rparr>]\<rparr>\<rparr>)
   \<and> be_uint [0, 0, 0, 0, 0, 0, 5, 220] = 1500
   \<and> (1 :: rat) \<noteq> 1500 / 1000"
  by (simp add: ingest_message_def VoicePipeline_def PipelineConfig_def new_queue_def
      MAX_QUEUE_SIZE_def py_slice_to_def py_slice_from_def norm_index_def struct_unpack_HQ_def
      be_uint_def datetime_roundtrip_def datetime_max_seconds_def add_incoming_def
      add_queue_no_wait_log_def put_nowait_def full_def)

subsection \<open>C10: an empty payload reaches the error branch of the frame procedure\<close>

text \<open>
  C10. A binary message of exactly 10 bytes (flag clear, queue not full, timestamp in
  range) passes the length check and puts a chunk with zero PCM bytes on the incoming
  queue. On that chunk the resampler raises \<open>ValueError\<close> (the maximum of an empty
  array), whatever the ratio, and \<open>process_audio_chunk\<close> takes its exception branch:
  the buffer is emptied and the error is re-raised.
\<close>

theorem empty_payload_raises:
  assumes "\<not> is_tts_playing p" and "header_bytes (config p) = 10" and "length raw = 10"
    and "be_uint (take 8 (drop 2 raw)) div 1000 \<le> datetime_max_seconds"
    and "\<not> full (incoming_queue p)"
  shows "\<exists>p' c. ingest_message loads p (BytesMsg raw) = Inr p'
          \<and> items (incoming_queue p') = items (incoming_queue p) @ [c]
          \<and> audio c = PCMBytes []
          \<and> audio_resampler poly (audio c) r = Inl ValueError
          \<and> process_audio_chunk poly vad vp c = (vp\<lparr>audio_buffer := []\<rparr>, Inl ValueError)"
proof -
  let ?c = "\<lparr>flag = be_uint (take 2 raw),
             timestamp = of_nat (be_uint (take 8 (drop 2 raw)) div 1000),
             audio = PCMBytes (drop 10 raw), transcript = None\<rparr>"
  from assms(3) have l: "10 \<le> length raw" by simp
  from assms(3) have a: "audio ?c = PCMBytes []" by simp
  from ingest_bytes_clear[OF assms(1,2) l assms(4)] add_incoming_room[OF assms(5)]
  have i: "ingest_message loads p (BytesMsg raw)
             = Inr (p\<lparr>incoming_queue := (incoming_queue p)\<lparr>items := items (incoming_queue p) @ [?c]\<rparr>\<rparr>)"
    by simp
  have q: "items (incoming_queue (p\<lparr>incoming_queue := (incoming_queue p)\<lparr>items := items (incoming_queue p) @ [?c]\<rparr>\<rparr>))
             = items (incoming_queue p) @ [?c]" by simp
  from a have r: "audio_resampler poly (audio ?c) r = Inl ValueError"
    by (simp add: resampler_empty)
  from i q a r process_empty_chunk[OF a] show ?thesis by blast
qed

theorem empty_payload_raises_witness:
  "\<not> is_tts_playing (VoicePipeline PipelineConfig)
   \<and> header_bytes (config (VoicePipeline PipelineConfig)) = 10
   \<and> length [0, 1, 0, 0, 0, 0, 0, 0, 5, 220 :: byte] = 10
   \<and> be_uint (take 8 (drop 2 [0, 1, 0, 0, 0, 0, 0, 0, 5, 220])) div 1000 \<le> datetime_max_seconds
   \<and> \<not> full (incoming_queue (VoicePipeline PipelineConfig))
   \<and> (\<exists>p' c. ingest_message (loads_table []) (VoicePipeline PipelineConfig)
                 (BytesMsg [0, 1, 0, 0, 0, 0, 0, 0, 5, 220]) = Inr p'
          \<and> items (incoming_queue p') = items (incoming_queue (VoicePipeline PipelineConfig)) @ [c]
          \<and> audio c = PCMBytes []
          \<and> audio_resampler (\<lambda>xs r. Inr []) (audio c) 3 = Inl ValueError
          \<and> process_audio_chunk (\<lambda>xs r. Inr []) (\<lambda>buf. Inr []) default_VADProcessor c
              = (default_VADProcessor\<lparr>audio_buffer := []\<rparr>, Inl ValueError))"
proof -
  have h1: "\<not> is_tts_playing (VoicePipeline PipelineConfig)"
    and h2: "header_bytes (config (VoicePipeline PipelineConfig)) = 10"
    and h5: "\<not> full (incoming_queue (VoicePipeline PipelineConfig))"
    by (simp_all add: VoicePipeline_def PipelineConfig_def full_def new_queue_def MAX_QUEUE_SIZE_def)
  have h3: "length [0, 1, 0, 0, 0, 0, 0, 0, 5, 220 :: byte] = 10" by simp
  have h4: "be_uint (take 8 (drop 2 [0, 1, 0, 0, 0, 0, 0, 0, 5, 220])) div 1000 \<le> datetime_max_seconds"
    by (simp add: be_uint_def datetime_max_seconds_def)
  from empty_payload_raises [of "VoicePipeline PipelineConfig" "[0, 1, 0, 0, 0, 0, 0, 0, 5, 220]"
          "loads_table []" "\<lambda>xs r. Inr []" 3 "\<lambda>buf. Inr []" default_VADProcessor,
          OF h1 h2 h3 h4 h5]
       h1 h2 h3 h4 h5
  show ?thesis by blast
qed

subsection \<open>VAD segmenter lemmas\<close>

lemma VADProcessor_default: "VADProcessor PipelineConfig = Inr default_VADProcessor"
  by (simp add: VADProcessor_def PipelineConfig_def default_VADProcessor_def)

lemma py_slice_length_le:
  "0 \<le> s \<Longrightarrow> s \<le> e \<Longrightarrow> int (length (py_slice buf s e)) \<le> e - s"
  by (auto simp: py_slice_def norm_index_def min_def)

lemma ranges_total_length:
  "ranges_ok lo (int (length buf)) ts \<Longrightarrow> 0 \<le> lo \<Longrightarrow>
     int (length (concat (map (\<lambda>t. py_slice buf (ts_start t) (ts_end t)) ts)))
       \<le> int (length buf) - lo"
proof (induction ts arbitrary: lo)
  case Nil
  then show ?case by simp
next
  case (Cons t ts)
  from Cons.prems have s: "lo \<le> ts_start t" "ts_start t \<le> ts_end t"
    and r: "ranges_ok (ts_end t) (int (length buf)) ts" by simp_all
  from s Cons.prems(2) have e0: "0 \<le> ts_end t" "0 \<le> ts_start t" by linarith+
  from Cons.IH[OF r e0(1)]
  have ih: "int (length (concat (map (\<lambda>t. py_slice buf (ts_start t) (ts_end t)) ts)))
       \<le> int (length buf) - ts_end t" .
  from py_slice_length_le[OF e0(2) s(2)]
  have h: "int (length (py_slice buf (ts_start t) (ts_end t))) \<le> ts_end t - ts_start t" .
  from ih h s show ?case by simp
qed

lemma segment_buffer_emits:
  assumes "segment_buffer p c buf ts = (p', Some seg)"
  shows "ts \<noteq> [] \<and> seg = c\<lparr>audio := PCMSamples (concat (map (\<lambda>t. py_slice buf (ts_start t) (ts_end t)) ts))\<rparr>"
  using assms
  by (auto simp: segment_buffer_def Let_def split: if_splits)

lemma process_audio_chunk_emits:
  assumes "process_audio_chunk poly vad p c = (p', Inr (Some seg))"
  shows "\<exists>xs ts. resample_audio poly p (audio c) = Inr xs
           \<and> vad (audio_buffer p @ xs) = Inr ts
           \<and> min_audio_samples p \<le> of_nat (length (audio_buffer p @ xs))
           \<and> segment_buffer p c (audio_buffer p @ xs) ts = (p', Some seg)"
  using assms
  by (auto simp: process_audio_chunk_def Let_def split: sum.splits if_splits prod.splits)

lemma resample_three_samples:
  "resample_audio (\<lambda>xs r. Inr [10000]) default_VADProcessor
       (PCMBytes [16, 39, 16, 39, 16, 39]) = Inr [10000]"
  by (simp add: resample_audio_def audio_resampler_def frombuffer_int16_def int16_le_def
      np_abs_int16_def clip_int16_def default_VADProcessor_def)

lemma short_segment_run:
  "process_audio_chunk (\<lambda>xs r. Inr [10000]) (\<lambda>buf. Inr [\<lparr>ts_start = 2000, ts_end = 6000\<rparr>])
       (default_VADProcessor\<lparr>audio_buffer := replicate 19999 1000\<rparr>)
       \<lparr>flag = 0, timestamp = 1, audio = PCMBytes [16, 39, 16, 39, 16, 39], transcript = None\<rparr>
     = (default_VADProcessor\<lparr>audio_buffer := replicate 13999 1000 @ [10000]\<rparr>,
        Inr (Some \<lparr>flag = 0, timestamp = 1, audio = PCMSamples (replicate 4000 1000),
                   transcript = None\<rparr>))"
proof -
  have r: "resample_audio (\<lambda>xs r. Inr [10000]) (default_VADProcessor\<lparr>audio_buffer := replicate 19999 1000\<rparr>)
       (PCMBytes [16, 39, 16, 39, 16, 39]) = Inr [10000]"
    using resample_three_samples by (simp add: resample_audio_def default_VADProcessor_def)
  have f: "max_audio_buffer (default_VADProcessor\<lparr>audio_buffer := replicate 19999 1000\<rparr>) = 320000"
    "min_audio_samples (default_VADProcessor\<lparr>audio_buffer := replicate 19999 1000\<rparr>) = 8000"
    "min_silence_samples (default_VADProcessor\<lparr>audio_buffer := replicate 19999 1000\<rparr>) = 8000"
    by (simp_all add: default_VADProcessor_def)
  show ?thesis
    by (simp add: process_audio_chunk_def r segment_buffer_def f
        py_slice_def py_slice_from_def norm_index_def)
qed

lemma force_flush_trims_without_emit:
  assumes "resample_audio poly p (audio c) = Inr xs"
    and "min_audio_samples p \<le> of_nat (length (audio_buffer p @ xs))"
    and "vad (audio_buffer p @ xs) = Inr ts"
    and "ts \<noteq> []"
    and "int (length (audio_buffer p @ xs)) \<ge> max_audio_buffer p"
    and "int (length (audio_buffer p @ xs)) - ts_end (last ts) < min_silence_samples p"
    and "0 < ts_start (hd ts)" and "ts_start (hd ts) \<le> int (length (audio_buffer p @ xs))"
  shows "process_audio_chunk poly vad p c
           = (p\<lparr>audio_buffer := drop (nat (ts_start (hd ts))) (audio_buffer p @ xs)\<rparr>, Inr None)"
proof -
  let ?buf = "audio_buffer p @ xs"
  from assms(7,8) have n: "norm_index (length ?buf) (ts_start (hd ts)) = nat (ts_start (hd ts))"
    by (auto simp: norm_index_def)
  from assms(7,8) have l: "length ?buf \<noteq> length (drop (nat (ts_start (hd ts))) ?buf)"
    by auto
  from assms(4,5,6) l have "segment_buffer p c ?buf ts
      = (p\<lparr>audio_buffer := drop (nat (ts_start (hd ts))) ?buf\<rparr>, None)"
    unfolding segment_buffer_def Let_def py_slice_from_def n by simp
  with assms(1,2,3) show ?thesis
    by (simp add: process_audio_chunk_def Let_def)
qed

subsection \<open>C3: length of an emitted segment\<close>

text \<open>
  C3 (as the code has it). Whenever the frame procedure emits a segment, the buffer with
  the frame appended holds at least \<open>min_speech_s \<times> audio_sample_rate\<close> samples, and the
  segment's samples are the concatenation of the VAD ranges cut from that buffer; for
  ranges that are in order, non-overlapping and inside the buffer the segment is no
  longer than the buffer. The length of the segment itself is not checked.
\<close>

theorem emitted_segment_bounds:
  assumes "process_audio_chunk poly vad p c = (p', Inr (Some seg))"
  shows "\<exists>xs ts. resample_audio poly p (audio c) = Inr xs
           \<and> vad (audio_buffer p @ xs) = Inr ts
           \<and> min_audio_samples p \<le> of_nat (length (audio_buffer p @ xs))
           \<and> audio seg = PCMSamples (concat (map (\<lambda>t. py_slice (audio_buffer p @ xs) (ts_start t) (ts_end t)) ts))
           \<and> (ranges_ok 0 (int (length (audio_buffer p @ xs))) ts \<longrightarrow>
                length (concat (map (\<lambda>t. py_slice (audio_buffer p @ xs) (ts_start t) (ts_end t)) ts))
                  \<le> length (audio_buffer p @ xs))"
proof -
  from process_audio_chunk_emits[OF assms] obtain xs ts where
    a: "resample_audio poly p (audio c) = Inr xs" "vad (audio_buffer p @ xs) = Inr ts"
       "min_audio_samples p \<le> of_nat (length (audio_buffer p @ xs))"
       "segment_buffer p c (audio_buffer p @ xs) ts = (p', Some seg)"
    by blast
  from segment_buffer_emits[OF a(4)]
  have s: "audio seg = PCMSamples (concat (map (\<lambda>t. py_slice (audio_buffer p @ xs) (ts_start t) (ts_end t)) ts))"
    by simp
  have "ranges_ok 0 (int (length (audio_buffer p @ xs))) ts \<longrightarrow>
                length (concat (map (\<lambda>t. py_slice (audio_buffer p @ xs) (ts_start t) (ts_end t)) ts))
                  \<le> length (audio_buffer p @ xs)"
  proof
    assume "ranges_ok 0 (int (length (audio_buffer p @ xs))) ts"
    from ranges_total_length[OF this] show "length (concat (map (\<lambda>t. py_slice (audio_buffer p @ xs) (ts_start t) (ts_end t)) ts))
                  \<le> length (audio_buffer p @ xs)" by simp
  qed
  with a(1,2,3) s show ?thesis by blast
qed

theorem emitted_segment_bounds_witness:
  "process_audio_chunk (\<lambda>xs r. Inr [10000]) (\<lambda>buf. Inr [\<lparr>ts_start = 2000, ts_end = 6000\<rparr>])
       (default_VADProcessor\<lparr>audio_buffer := replicate 19999 1000\<rparr>)
       \<lparr>flag = 0, timestamp = 1, audio = PCMBytes [16, 39, 16, 39, 16, 39], transcript = None\<rparr>
     = (default_VADProcessor\<lparr>audio_buffer := replicate 13999 1000 @ [10000]\<rparr>,
        Inr (Some \<lparr>flag = 0, timestamp = 1, audio = PCMSamples (replicate 4000 1000),
                   transcript = None\<rparr>))
   \<and> ranges_ok 0 (int (length (replicate 19999 (1000::int) @ [10000])))
         [\<lparr>ts_start = 2000, ts_end = 6000\<rparr>]
   \<and> min_audio_samples (default_VADProcessor\<lparr>audio_buffer := replicate 19999 1000\<rparr>)
         \<le> of_nat (length (replicate 19999 (1000::int) @ [10000]))
   \<and> length (replicate 4000 (1000::int)) \<le> length (replicate 19999 (1000::int) @ [10000])"
proof -
  let ?p = "default_VADProcessor\<lparr>audio_buffer := replicate 19999 1000\<rparr>"
  have b: "audio_buffer ?p = replicate 19999 1000" by simp
  have r: "resample_audio (\<lambda>xs r. Inr [10000]) ?p (PCMBytes [16, 39, 16, 39, 16, 39]) = Inr [10000]"
    using resample_three_samples by (simp add: resample_audio_def default_VADProcessor_def)
  have k: "ranges_ok 0 (int (length (replicate 19999 (1000::int) @ [10000])))
         [\<lparr>ts_start = 2000, ts_end = 6000\<rparr>]" by simp
  from emitted_segment_bounds [OF short_segment_run] r b k short_segment_run
  show ?thesis by (auto simp: default_VADProcessor_def)
qed

text \<open>
  C3 as stated fails on the trailing-silence path: with the default configuration, a
  buffer of 20000 samples whose only VAD range is \<open>2000 .. 6000\<close> has 14000 samples of
  trailing silence (at least the 8000 required), and the segment emitted has 4000
  samples, fewer than \<open>min_speech_s \<times> audio_sample_rate = 8000\<close>.
\<close>

theorem short_segment_counterexample:
  "snd (process_audio_chunk (\<lambda>xs r. Inr [10000]) (\<lambda>buf. Inr [\<lparr>ts_start = 2000, ts_end = 6000\<rparr>])
       (default_VADProcessor\<lparr>audio_buffer := replicate 19999 1000\<rparr>)
       \<lparr>flag = 0, timestamp = 1, audio = PCMBytes [16, 39, 16, 39, 16, 39], transcript = None\<rparr>)
     = Inr (Some \<lparr>flag = 0, timestamp = 1, audio = PCMSamples (replicate 4000 1000),
                   transcript = None\<rparr>)
   \<and> int (length (replicate 19999 (1000::int) @ [10000])) - 6000
        \<ge> min_silence_samples default_VADProcessor
   \<and> of_nat (length (replicate 4000 (1000::int)))
        < min_continuous_speech_s default_VADProcessor * of_int (audio_sample_rate default_VADProcessor)"
  by (simp add: short_segment_run) (simp add: default_VADProcessor_def)

lemma force_flush_emits_at_zero:
  assumes "resample_audio poly p (audio c) = Inr xs"
    and "min_audio_samples p \<le> of_nat (length (audio_buffer p @ xs))"
    and "vad (audio_buffer p @ xs) = Inr ts"
    and "ts \<noteq> []"
    and "int (length (audio_buffer p @ xs)) \<ge> max_audio_buffer p"
    and "int (length (audio_buffer p @ xs)) - ts_end (last ts) < min_silence_samples p"
    and "ts_start (hd ts) = 0"
  shows "process_audio_chunk poly vad p c
           = (p\<lparr>audio_buffer := []\<rparr>,
              Inr (Some (c\<lparr>audio := PCMSamples
                     (concat (map (\<lambda>t. py_slice (audio_buffer p @ xs) (ts_start t) (ts_end t)) ts))\<rparr>)))"
proof -
  let ?buf = "audio_buffer p @ xs"
  from assms(7) have n: "norm_index (length ?buf) (ts_start (hd ts)) = 0"
    by (simp add: norm_index_def)
  from assms(4,5,6) have "segment_buffer p c ?buf ts
      = (p\<lparr>audio_buffer := []\<rparr>,
         Some (c\<lparr>audio := PCMSamples
                 (concat (map (\<lambda>t. py_slice ?buf (ts_start t) (ts_end t)) ts))\<rparr>))"
    unfolding segment_buffer_def Let_def py_slice_from_def n by simp
  with assms(1,2,3) show ?thesis
    by (simp add: process_audio_chunk_def Let_def)
qed

subsection \<open>C1: full buffer, speech detected, no trailing silence\<close>

text \<open>
  C1 (as the code has it). For every call in which the VAD detects speech, the trailing
  silence after the last range is shorter than \<open>min_silence_samples\<close> and the buffer
  has reached the cap: the buffer is cut at the first speech start. When that does not
  shrink it (the first range starts at sample 0) the buffer is emptied and the call
  returns a segment whose samples are the concatenation of all VAD ranges. When it
  does shrink it, the call returns no segment and the buffer keeps everything from the
  first speech start on.
\<close>

theorem full_buffer_flush:
  assumes "resample_audio poly p (audio c) = Inr xs"
    and "min_audio_samples p \<le> of_nat (length (audio_buffer p @ xs))"
    and "vad (audio_buffer p @ xs) = Inr ts"
    and "ts \<noteq> []"
    and "int (length (audio_buffer p @ xs)) \<ge> max_audio_buffer p"
    and "int (length (audio_buffer p @ xs)) - ts_end (last ts) < min_silence_samples p"
  shows "(ts_start (hd ts) = 0 \<longrightarrow>
            process_audio_chunk poly vad p c
              = (p\<lparr>audio_buffer := []\<rparr>,
                 Inr (Some (c\<lparr>audio := PCMSamples
                        (concat (map (\<lambda>t. py_slice (audio_buffer p @ xs) (ts_start t) (ts_end t)) ts))\<rparr>))))
       \<and> (0 < ts_start (hd ts) \<and> ts_start (hd ts) \<le> int (length (audio_buffer p @ xs)) \<longrightarrow>
            process_audio_chunk poly vad p c
              = (p\<lparr>audio_buffer := drop (nat (ts_start (hd ts))) (audio_buffer p @ xs)\<rparr>, Inr None))"
  using force_flush_emits_at_zero[of poly p c xs vad ts, OF assms]
    force_flush_trims_without_emit[of poly p c xs vad ts, OF assms]
  by blast

theorem full_buffer_flush_witness:
  "process_audio_chunk (\<lambda>xs r. Inr [10000]) (\<lambda>buf. Inr [\<lparr>ts_start = 0, ts_end = 320000\<rparr>])
       (default_VADProcessor\<lparr>audio_buffer := replicate 319999 1000\<rparr>)
       \<lparr>flag = 0, timestamp = 1, audio = PCMBytes [16, 39, 16, 39, 16, 39], transcript = None\<rparr>
     = (default_VADProcessor\<lparr>audio_buffer := []\<rparr>,
        Inr (Some \<lparr>flag = 0, timestamp = 1,
                   audio = PCMSamples (replicate 319999 1000 @ [10000]), transcript = None\<rparr>))
   \<and> process_audio_chunk (\<lambda>xs r. Inr [10000]) (\<lambda>buf. Inr [\<lparr>ts_start = 1600, ts_end = 320000\<rparr>])
       (default_VADProcessor\<lparr>audio_buffer := replicate 319999 1000\<rparr>)
       \<lparr>flag = 0, timestamp = 1, audio = PCMBytes [16, 39, 16, 39, 16, 39], transcript = None\<rparr>
     = (default_VADProcessor\<lparr>audio_buffer := replicate 318399 1000 @ [10000]\<rparr>, Inr None)"
proof -
  let ?p = "default_VADProcessor\<lparr>audio_buffer := replicate 319999 1000\<rparr>"
  let ?c = "\<lparr>flag = 0, timestamp = 1, audio = PCMBytes [16, 39, 16, 39, 16, 39], transcript = None\<rparr>"
  let ?poly = "\<lambda>(xs :: int list) (r :: int). (Inr [10000] :: py_error + rat list)"
  let ?v0 = "\<lambda>(buf :: int list). (Inr [\<lparr>ts_start = 0, ts_end = 320000\<rparr>] :: py_error + speech_timestamp list)"
  let ?v1 = "\<lambda>(buf :: int list). (Inr [\<lparr>ts_start = 1600, ts_end = 320000\<rparr>] :: py_error + speech_timestamp list)"
  have r: "resample_audio ?poly ?p (audio ?c) = Inr [10000]"
    using resample_three_samples by (simp add: resample_audio_def default_VADProcessor_def)
  have m: "min_audio_samples ?p \<le> of_nat (length (audio_buffer ?p @ [10000]))"
    and f: "int (length (audio_buffer ?p @ [10000])) \<ge> max_audio_buffer ?p"
    by (simp_all add: default_VADProcessor_def)
  have v0: "?v0 (audio_buffer ?p @ [10000]) = Inr [\<lparr>ts_start = 0, ts_end = 320000\<rparr>]"
    and v1: "?v1 (audio_buffer ?p @ [10000]) = Inr [\<lparr>ts_start = 1600, ts_end = 320000\<rparr>]"
    by simp_all
  have n0: "[\<lparr>ts_start = 0, ts_end = 320000\<rparr>] \<noteq> []" and n1: "[\<lparr>ts_start = 1600, ts_end = 320000\<rparr>] \<noteq> []"
    by simp_all
  have s0: "int (length (audio_buffer ?p @ [10000])) - ts_end (last [\<lparr>ts_start = 0, ts_end = 320000\<rparr>])
              < min_silence_samples ?p"
    and s1: "int (length (audio_buffer ?p @ [10000])) - ts_end (last [\<lparr>ts_start = 1600, ts_end = 320000\<rparr>])
              < min_silence_samples ?p"
    by (simp_all add: default_VADProcessor_def)
  have z: "ts_start (hd [\<lparr>ts_start = 0, ts_end = 320000\<rparr>]) = 0" by simp
  have p1: "0 < ts_start (hd [\<lparr>ts_start = 1600, ts_end = 320000\<rparr>])
          \<and> ts_start (hd [\<lparr>ts_start = 1600, ts_end = 320000\<rparr>]) \<le> int (length (audio_buffer ?p @ [10000]))"
    by simp
  from full_buffer_flush [of ?poly ?p ?c "[10000]" ?v0, OF r m v0 n0 f s0] z
  have "process_audio_chunk ?poly ?v0 ?p ?c
              = (?p\<lparr>audio_buffer := []\<rparr>,
                 Inr (Some (?c\<lparr>audio := PCMSamples
                        (concat (map (\<lambda>t. py_slice (audio_buffer ?p @ [10000]) (ts_start t) (ts_end t))
                           [\<lparr>ts_start = 0, ts_end = 320000\<rparr>]))\<rparr>)))"
    by blast
  then have a: "process_audio_chunk ?poly ?v0 ?p ?c
     = (default_VADProcessor\<lparr>audio_buffer := []\<rparr>,
        Inr (Some \<lparr>flag = 0, timestamp = 1,
                   audio = PCMSamples (replicate 319999 1000 @ [10000]), transcript = None\<rparr>))"
    by (simp add: py_slice_def norm_index_def)
  from full_buffer_flush [of ?poly ?p ?c "[10000]" ?v1, OF r m v1 n1 f s1] p1
  have "process_audio_chunk ?poly ?v1 ?p ?c
              = (?p\<lparr>audio_buffer := drop (nat (ts_start (hd [\<lparr>ts_start = 1600, ts_end = 320000\<rparr>])))
                    (audio_buffer ?p @ [10000])\<rparr>, Inr None)"
    by blast
  then have b: "process_audio_chunk ?poly ?v1 ?p ?c
     = (default_VADProcessor\<lparr>audio_buffer := replicate 318399 1000 @ [10000]\<rparr>, Inr None)"
    by simp
  from a b show ?thesis by blast
qed

text \<open>
  C1 as stated fails. Default configuration; the buffer reaches the cap of 320000
  samples with the frame appended; the VAD reports one range \<open>1600 .. 320000\<close>, so there
  is no trailing silence. The call discards the first 1600 samples and returns no
  segment.
\<close>

theorem full_buffer_speech_not_emitted:
  "process_audio_chunk (\<lambda>xs r. Inr [10000]) (\<lambda>buf. Inr [\<lparr>ts_start = 1600, ts_end = 320000\<rparr>])
       (default_VADProcessor\<lparr>audio_buffer := replicate 319999 1000\<rparr>)
       \<lparr>flag = 0, timestamp = 1, audio = PCMBytes [16, 39, 16, 39, 16, 39], transcript = None\<rparr>
     = (default_VADProcessor\<lparr>audio_buffer := replicate 318399 1000 @ [10000]\<rparr>, Inr None)
   \<and> int (length (replicate 319999 (1000::int) @ [10000])) \<ge> max_audio_buffer default_VADProcessor
   \<and> int (length (replicate 319999 (1000::int) @ [10000])) - 320000
        < min_silence_samples default_VADProcessor"
proof -
  let ?p = "default_VADProcessor\<lparr>audio_buffer := replicate 319999 1000\<rparr>"
  let ?c = "\<lparr>flag = 0, timestamp = 1, audio = PCMBytes [16, 39, 16, 39, 16, 39], transcript = None\<rparr>"
  have r: "resample_audio (\<lambda>xs r. Inr [10000]) ?p (audio ?c) = Inr [10000]"
    using resample_three_samples by (simp add: resample_audio_def default_VADProcessor_def)
  have "process_audio_chunk (\<lambda>xs r. Inr [10000]) (\<lambda>buf. Inr [\<lparr>ts_start = 1600, ts_end = 320000\<rparr>]) ?p ?c
      = (?p\<lparr>audio_buffer := drop (nat (ts_start (hd [\<lparr>ts_start = 1600, ts_end = 320000\<rparr>])))
            (audio_buffer ?p @ [10000])\<rparr>, Inr None)"
    by (rule force_flush_trims_without_emit[OF r]) (simp_all add: default_VADProcessor_def)
  then show ?thesis by (simp add: default_VADProcessor_def)
qed

subsection \<open>AgentDriver lemmas\<close>

lemma rfind_from_absent:
  "c \<notin> set xs \<Longrightarrow> rfind_from c xs i found = found"
  by (induction xs arbitrary: i found) auto

lemma rfind_from_present:
  "c \<in> set xs \<Longrightarrow>
     \<exists>k < length xs. rfind_from c xs i found = i + int k \<and> xs ! k = c
        \<and> (\<forall>j. k < j \<and> j < length xs \<longrightarrow> xs ! j \<noteq> c)"
proof (induction xs arbitrary: i found)
  case Nil
  then show ?case by simp
next
  case (Cons x xs)
  show ?case
  proof (cases "c \<in> set xs")
    case True
    from Cons.IH[OF True, of "i + 1" "if x = c then i else found"]
    obtain k where k: "k < length xs"
      "rfind_from c xs (i + 1) (if x = c then i else found) = i + 1 + int k"
      "xs ! k = c" "\<forall>j. k < j \<and> j < length xs \<longrightarrow> xs ! j \<noteq> c"
      by blast
    have "\<forall>j. Suc k < j \<and> j < length (x # xs) \<longrightarrow> (x # xs) ! j \<noteq> c"
    proof (intro allI impI)
      fix j assume j: "Suc k < j \<and> j < length (x # xs)"
      then obtain j' where "j = Suc j'" by (cases j) auto
      with j k(4) show "(x # xs) ! j \<noteq> c" by simp
    qed
    with k show ?thesis
      by (intro exI[of _ "Suc k"]) simp
  next
    case False
    with Cons.prems have xc: "x = c" by simp
    have "\<forall>j. 0 < j \<and> j < length (x # xs) \<longrightarrow> (x # xs) ! j \<noteq> c"
    proof (intro allI impI)
      fix j assume j: "0 < j \<and> j < length (x # xs)"
      then obtain j' where j': "j = Suc j'" by (cases j) auto
      with j have "xs ! j' \<in> set xs" by simp
      with False j' show "(x # xs) ! j \<noteq> c" by auto
    qed
    with xc False show ?thesis
      by (intro exI[of _ 0]) (simp add: rfind_from_absent)
  qed
qed

lemma rfind_present:
  assumes "c \<in> set s"
  shows "0 \<le> rfind s c \<and> nat (rfind s c) < length s \<and> s ! nat (rfind s c) = c
       \<and> (\<forall>j. nat (rfind s c) < j \<and> j < length s \<longrightarrow> s ! j \<noteq> c)"
proof -
  from rfind_from_present[OF assms, of 0 "- 1"] obtain k where
    "k < length s" "rfind s c = int k" "s ! k = c" "\<forall>j. k < j \<and> j < length s \<longrightarrow> s ! j \<noteq> c"
    by (auto simp: rfind_def)
  then show ?thesis by simp
qed

lemma py_max_Max:
  assumes "xs \<noteq> []"
  shows "py_max xs = Inr (Max (set xs))"
proof (cases xs)
  case Nil
  with assms show ?thesis by simp
next
  case (Cons a list)
  then show ?thesis using Max.set_eq_fold[of a list] by simp
qed

text \<open>The index the code computes is the last position holding a sentence ending.\<close>

lemma last_ending_idx:
  assumes "\<exists>ending \<in> set sentence_endings. ending \<in> set B"
  shows "\<exists>k < length B.
           py_max (map (rfind B) (filter (\<lambda>ending. ending \<in> set B) sentence_endings)) = Inr (int k)
         \<and> B ! k \<in> set sentence_endings
         \<and> (\<forall>j. k < j \<and> j < length B \<longrightarrow> B ! j \<notin> set sentence_endings)"
proof -
  let ?E = "filter (\<lambda>ending. ending \<in> set B) sentence_endings"
  let ?R = "map (rfind B) ?E"
  from assms obtain e0 where "e0 \<in> set sentence_endings" "e0 \<in> set B" by blast
  then have "e0 \<in> set ?E" by simp
  then have "?E \<noteq> []" by (metis empty_iff empty_set)
  then have ne: "?R \<noteq> []" by (metis map_is_Nil_conv)
  then have pm: "py_max ?R = Inr (Max (set ?R))" by (rule py_max_Max)
  from ne have nes: "set ?R \<noteq> {}" by (metis set_empty)
  have "Max (set ?R) \<in> set ?R" by (rule Max_in[OF finite_set nes])
  then obtain e where e: "e \<in> set ?E" "Max (set ?R) = rfind B e" by auto
  then have eB: "e \<in> set B" "e \<in> set sentence_endings" by simp_all
  from rfind_present[OF eB(1)] have r: "0 \<le> rfind B e" "nat (rfind B e) < length B"
    "B ! nat (rfind B e) = e" by simp_all
  have after: "\<forall>j. nat (rfind B e) < j \<and> j < length B \<longrightarrow> B ! j \<notin> set sentence_endings"
  proof (intro allI impI notI)
    fix j assume j: "nat (rfind B e) < j \<and> j < length B" and m: "B ! j \<in> set sentence_endings"
    let ?d = "B ! j"
    from j have dB: "?d \<in> set B" by simp
    with m have "rfind B ?d \<in> set ?R" by simp
    then have le: "rfind B ?d \<le> Max (set ?R)" by (rule Max_ge[OF finite_set])
    from rfind_present[OF dB] have q: "\<forall>i. nat (rfind B ?d) < i \<and> i < length B \<longrightarrow> B ! i \<noteq> ?d"
      and q0: "0 \<le> rfind B ?d" by simp_all
    have "j \<le> nat (rfind B ?d)"
    proof (rule ccontr)
      assume "\<not> j \<le> nat (rfind B ?d)"
      then have "nat (rfind B ?d) < j \<and> j < length B" using j by simp
      with q have "B ! j \<noteq> B ! j" by blast
      then show False by simp
    qed
    note this q0
    with le e(2) j r(1) show False by linarith
  qed
  from r(1) have "int (nat (rfind B e)) = rfind B e" by simp
  with pm e(2) r eB(2) after show ?thesis
    by (intro exI[of _ "nat (rfind B e)"]) simp
qed

lemma fold_emit:
  "fold (\<lambda>chunk. emit ty (f chunk) ts) chunks st
     = st\<lparr>emitted := emitted st @ map (\<lambda>chunk. create_event_message ty (f chunk) ts) chunks\<rparr>"
  by (induction chunks arbitrary: st) (simp_all add: emit_def)

lemma stream_tts_eq:
  "stream_tts tts t st
     = (st\<lparr>tts_calls := tts_calls st @ [t],
           emitted := emitted st @
             map (\<lambda>chunk. create_event_message AI_RESPONSE_SPEECH_DELTA (Some (Base64Of chunk)) None)
               (fst (tts t))\<rparr>,
        snd (tts t))"
  by (cases "tts t") (simp add: stream_tts_def fold_emit)

lemma split_at_last_ending:
  assumes "k < length B" and "B ! k \<in> set sentence_endings"
    and "\<forall>j. k < j \<and> j < length B \<longrightarrow> B ! j \<notin> set sentence_endings"
  shows "py_slice_to B (int k + 1) = take (Suc k) B"
    and "py_slice_from B (int k + 1) = drop (Suc k) B"
    and "take (Suc k) B \<noteq> []"
    and "last (take (Suc k) B) \<in> set sentence_endings"
    and "set (drop (Suc k) B) \<inter> set sentence_endings = {}"
proof -
  from assms(1) have n: "norm_index (length B) (int k + 1) = Suc k"
    by (simp add: norm_index_def nat_add_distrib)
  show "py_slice_to B (int k + 1) = take (Suc k) B" by (simp add: py_slice_to_def n)
  show "py_slice_from B (int k + 1) = drop (Suc k) B" by (simp add: py_slice_from_def n)
  from assms(1) show ne: "take (Suc k) B \<noteq> []" by (cases B) auto
  from assms(1) have "last (take (Suc k) B) = B ! k"
    by (simp add: take_Suc_conv_app_nth)
  with assms(2) show "last (take (Suc k) B) \<in> set sentence_endings" by simp
  show "set (drop (Suc k) B) \<inter> set sentence_endings = {}"
  proof (rule ccontr)
    assume "set (drop (Suc k) B) \<inter> set sentence_endings \<noteq> {}"
    then obtain c where c: "c \<in> set (drop (Suc k) B)" "c \<in> set sentence_endings" by blast
    then obtain i where i: "i < length (drop (Suc k) B)" "drop (Suc k) B ! i = c"
      by (auto simp: in_set_conv_nth)
    then have "Suc k + i < length B" "B ! (Suc k + i) = c" by simp_all
    with assms(3) c(2) show False by (metis less_add_Suc1 add_Suc)
  qed
qed

lemma on_agent_chunk_no_ending:
  assumes "\<not> (\<exists>ending \<in> set sentence_endings. ending \<in> set (text_buffer st @ chunk))"
  shows "on_agent_chunk tts st chunk
           = (st\<lparr>text_buffer := text_buffer st @ chunk,
                 first_response_chunk := False,
                 emitted := emitted st @
                   (if first_response_chunk st
                    then [create_event_message AI_RESPONSE_TEXT_START None None] else [])\<rparr>,
              None)"
  using assms unfolding on_agent_chunk_def Let_def
  by (simp add: emit_def del: set_append)

lemma on_agent_chunk_ending:
  assumes "\<exists>ending \<in> set sentence_endings. ending \<in> set (text_buffer st @ chunk)"
  shows "\<exists>complete rest.
           text_buffer st @ chunk = complete @ rest
         \<and> complete \<noteq> [] \<and> last complete \<in> set sentence_endings
         \<and> set rest \<inter> set sentence_endings = {}
         \<and> on_agent_chunk tts st chunk
             = (st\<lparr>text_buffer := rest,
                   first_response_chunk := False,
                   first_speech_chunk := False,
                   tts_calls := tts_calls st @ [complete],
                   emitted := emitted st @
                     (if first_response_chunk st
                      then [create_event_message AI_RESPONSE_TEXT_START None None] else []) @
                     (if first_speech_chunk st
                      then [create_event_message AI_RESPONSE_SPEECH_START None None] else []) @
                     [create_event_message AI_RESPONSE_TEXT_DELTA (Some (Text complete)) None] @
                     map (\<lambda>chunk. create_event_message AI_RESPONSE_SPEECH_DELTA
                                     (Some (Base64Of chunk)) None) (fst (tts complete))\<rparr>,
                snd (tts complete))"
proof -
  let ?B = "text_buffer st @ chunk"
  from last_ending_idx[OF assms] obtain k where k: "k < length ?B"
    "py_max (map (rfind ?B) (filter (\<lambda>ending. ending \<in> set ?B) sentence_endings)) = Inr (int k)"
    "?B ! k \<in> set sentence_endings"
    "\<forall>j. k < j \<and> j < length ?B \<longrightarrow> ?B ! j \<notin> set sentence_endings"
    by blast
  note s = split_at_last_ending[OF k(1,3,4)]
  have run: "on_agent_chunk tts st chunk
             = (st\<lparr>text_buffer := drop (Suc k) ?B,
                   first_response_chunk := False,
                   first_speech_chunk := False,
                   tts_calls := tts_calls st @ [take (Suc k) ?B],
                   emitted := emitted st @
                     (if first_response_chunk st
                      then [create_event_message AI_RESPONSE_TEXT_START None None] else []) @
                     (if first_speech_chunk st
                      then [create_event_message AI_RESPONSE_SPEECH_START None None] else []) @
                     [create_event_message AI_RESPONSE_TEXT_DELTA (Some (Text (take (Suc k) ?B))) None] @
                     map (\<lambda>chunk. create_event_message AI_RESPONSE_SPEECH_DELTA
                                     (Some (Base64Of chunk)) None) (fst (tts (take (Suc k) ?B)))\<rparr>,
                snd (tts (take (Suc k) ?B)))"
    using assms s(3) k(2) unfolding on_agent_chunk_def Let_def
    by (auto simp add: s(1,2) stream_tts_eq emit_def simp del: set_append take_append drop_append)
  have "?B = take (Suc k) ?B @ drop (Suc k) ?B" by (rule append_take_drop_id[symmetric])
  with s(3,4,5) run show ?thesis by blast
qed

lemma example_turn:
  assumes "snd (tts ''Hi there!'') = None" and "snd (tts '' How are you?'') = None"
  shows "run_turn (\<lambda>t. ([''Hi'', '' there'', ''! How'', '' are'', '' you?''], None)) tts
           \<lparr>flag = 0, timestamp = 1, audio = PCMBytes [], transcript = Some ''Hello.''\<rparr>
         = (\<lparr>text_buffer = [], first_response_chunk = False, first_speech_chunk = False,
             emitted =
               [create_event_message TRANSCRIPTION_TEXT (Some (Text ''Hello.'')) (Some 1),
                create_event_message AI_RESPONSE_TEXT_START None None,
                create_event_message AI_RESPONSE_SPEECH_START None None,
                create_event_message AI_RESPONSE_TEXT_DELTA (Some (Text ''Hi there!'')) None] @
               map (\<lambda>chunk. create_event_message AI_RESPONSE_SPEECH_DELTA (Some (Base64Of chunk)) None)
                 (fst (tts ''Hi there!'')) @
               [create_event_message AI_RESPONSE_TEXT_DELTA (Some (Text '' How are you?'')) None] @
               map (\<lambda>chunk. create_event_message AI_RESPONSE_SPEECH_DELTA (Some (Base64Of chunk)) None)
                 (fst (tts '' How are you?'')) @
               [create_event_message AI_RESPONSE_TEXT_END None None,
                create_event_message AI_RESPONSE_SPEECH_END None None],
             tts_calls = [''Hi there!'', '' How are you?'']\<rparr>, None)"
  by (simp add: run_turn_def on_agent_chunk_def Let_def emit_def stream_tts_eq sentence_endings_def
      rfind_def py_slice_to_def py_slice_from_def norm_index_def strip_truthy_def assms)

lemma ev_type_create [simp]: "ev_type (create_event_message t c ts) = t"
  by (simp add: create_event_message_def)

lemma text_deltas_append: "text_deltas (xs @ ys) = text_deltas xs @ text_deltas ys"
  by (induction xs) (auto split: ResponseEventType.splits option.splits event_content.splits)

lemma text_deltas_speech:
  "\<forall>m \<in> set ms. ev_type m = AI_RESPONSE_SPEECH_DELTA \<Longrightarrow> text_deltas ms = []"
  by (induction ms) simp_all

lemma example_turn_deltas:
  assumes "snd (tts ''Hi there!'') = None" and "snd (tts '' How are you?'') = None"
  shows "text_deltas (emitted (fst (run_turn (\<lambda>t. ([''Hi'', '' there'', ''! How'', '' are'', '' you?''], None)) tts
           \<lparr>flag = 0, timestamp = 1, audio = PCMBytes [], transcript = Some ''Hello.''\<rparr>)))
         = [''Hi there!'', '' How are you?'']"
  by (simp add: example_turn[OF assms] text_deltas_append text_deltas_speech
      create_event_message_def content_truthy_def)

lemma example_turn_types:
  assumes "snd (tts ''Hi there!'') = None" and "snd (tts '' How are you?'') = None"
  shows "emitted_types (fst (run_turn (\<lambda>t. ([''Hi'', '' there'', ''! How'', '' are'', '' you?''], None)) tts
           \<lparr>flag = 0, timestamp = 1, audio = PCMBytes [], transcript = Some ''Hello.''\<rparr>))
         = [TRANSCRIPTION_TEXT, AI_RESPONSE_TEXT_START, AI_RESPONSE_SPEECH_START,
            AI_RESPONSE_TEXT_DELTA] @
           replicate (length (fst (tts ''Hi there!''))) AI_RESPONSE_SPEECH_DELTA @
           [AI_RESPONSE_TEXT_DELTA] @
           replicate (length (fst (tts '' How are you?''))) AI_RESPONSE_SPEECH_DELTA @
           [AI_RESPONSE_TEXT_END, AI_RESPONSE_SPEECH_END]"
  by (simp add: example_turn[OF assms] emitted_types_def o_def map_replicate_const)

lemma on_agent_chunk_no_end:
  assumes "on_agent_chunk tts st chunk = (st', r)"
    and "\<forall>m \<in> set (emitted st). \<not> is_end_event m"
  shows "\<forall>m \<in> set (emitted st'). \<not> is_end_event m"
proof (cases "\<exists>ending \<in> set sentence_endings. ending \<in> set (text_buffer st @ chunk)")
  case True
  from on_agent_chunk_ending[OF True, of tts] assms show ?thesis
    by (auto simp: is_end_event_def)
next
  case False
  from on_agent_chunk_no_ending[OF False, of tts] assms show ?thesis
    by (auto simp: is_end_event_def)
qed

lemma on_agent_chunk_tts_ok:
  assumes "on_agent_chunk tts st chunk = (st', None)"
    and "\<forall>t \<in> set (tts_calls st). snd (tts t) = None"
  shows "\<forall>t \<in> set (tts_calls st'). snd (tts t) = None"
proof (cases "\<exists>ending \<in> set sentence_endings. ending \<in> set (text_buffer st @ chunk)")
  case True
  from on_agent_chunk_ending[OF True, of tts] assms show ?thesis by auto
next
  case False
  from on_agent_chunk_no_ending[OF False, of tts] assms show ?thesis by auto
qed

lemma agent_loop_no_end:
  "agent_loop tts st chunks = (st', r) \<Longrightarrow> \<forall>m \<in> set (emitted st). \<not> is_end_event m \<Longrightarrow>
     \<forall>m \<in> set (emitted st'). \<not> is_end_event m"
proof (induction chunks arbitrary: st)
  case Nil
  then show ?case by simp
next
  case (Cons chunk chunks)
  obtain st1 r1 where s: "on_agent_chunk tts st chunk = (st1, r1)" by (cases "on_agent_chunk tts st chunk")
  from on_agent_chunk_no_end[OF s Cons.prems(2)]
  have n: "\<forall>m \<in> set (emitted st1). \<not> is_end_event m" .
  show ?case
  proof (cases r1)
    case None
    with s Cons.prems(1) have "agent_loop tts st1 chunks = (st', r)" by simp
    from Cons.IH[OF this n] show ?thesis .
  next
    case (Some e)
    with s Cons.prems(1) have "st' = st1" by simp
    with n show ?thesis by simp
  qed
qed

lemma agent_loop_tts_ok:
  "agent_loop tts st chunks = (st', None) \<Longrightarrow> \<forall>t \<in> set (tts_calls st). snd (tts t) = None \<Longrightarrow>
     \<forall>t \<in> set (tts_calls st'). snd (tts t) = None"
proof (induction chunks arbitrary: st)
  case Nil
  then show ?case by simp
next
  case (Cons chunk chunks)
  obtain st1 r1 where s: "on_agent_chunk tts st chunk = (st1, r1)" by (cases "on_agent_chunk tts st chunk")
  show ?case
  proof (cases r1)
    case None
    with s Cons.prems(1) have l: "agent_loop tts st1 chunks = (st', None)" by simp
    from on_agent_chunk_tts_ok[OF s[unfolded None] Cons.prems(2)]
    have "\<forall>t \<in> set (tts_calls st1). snd (tts t) = None" .
    from Cons.IH[OF l this] show ?thesis .
  next
    case (Some e)
    with s Cons.prems(1) show ?thesis by simp
  qed
qed

lemma run_turn_error_no_end:
  assumes "run_turn agent tts c = (st, Some e)"
  shows "\<forall>m \<in> set (emitted st). \<not> is_end_event m"
proof -
  let ?st0 = "emit TRANSCRIPTION_TEXT (map_option Text (transcript c)) (Some (timestamp c))
                  \<lparr>text_buffer = [], first_response_chunk = True, first_speech_chunk = True,
                   emitted = [], tts_calls = []\<rparr>"
  obtain chunks agent_err where ag: "agent (transcript c) = (chunks, agent_err)"
    by (cases "agent (transcript c)")
  obtain st1 r1 where l: "agent_loop tts ?st0 chunks = (st1, r1)"
    by (cases "agent_loop tts ?st0 chunks")
  have "\<forall>m \<in> set (emitted ?st0). \<not> is_end_event m"
    by (simp add: emit_def is_end_event_def)
  from agent_loop_no_end[OF l this] have n1: "\<forall>m \<in> set (emitted st1). \<not> is_end_event m" .
  have n2: "\<forall>m \<in> set (emitted (fst (stream_tts tts (text_buffer st1)
               (emit AI_RESPONSE_TEXT_DELTA (Some (Text (text_buffer st1))) None st1)))). \<not> is_end_event m"
    using n1 by (auto simp: stream_tts_eq emit_def is_end_event_def)
  from assms n1 n2 show ?thesis
    unfolding run_turn_def Let_def ag prod.case l
    by (auto split: option.splits if_splits prod.splits)
qed

lemma run_turn_agent_error:
  assumes "snd (agent (transcript c)) \<noteq> None"
  shows "snd (run_turn agent tts c) \<noteq> None"
  using assms unfolding run_turn_def Let_def
  by (auto split: option.splits if_splits prod.splits)

lemma run_turn_ok_tts_ok:
  assumes "run_turn agent tts c = (st, None)"
  shows "\<forall>t \<in> set (tts_calls st). snd (tts t) = None"
proof -
  let ?st0 = "emit TRANSCRIPTION_TEXT (map_option Text (transcript c)) (Some (timestamp c))
                  \<lparr>text_buffer = [], first_response_chunk = True, first_speech_chunk = True,
                   emitted = [], tts_calls = []\<rparr>"
  obtain chunks agent_err where ag: "agent (transcript c) = (chunks, agent_err)"
    by (cases "agent (transcript c)")
  obtain st1 r1 where l: "agent_loop tts ?st0 chunks = (st1, r1)"
    by (cases "agent_loop tts ?st0 chunks")
  have t0: "\<forall>t \<in> set (tts_calls ?st0). snd (tts t) = None" by (simp add: emit_def)
  show ?thesis
  proof (cases r1)
    case None
    note l' = l[unfolded None]
    from agent_loop_tts_ok[OF l' t0]
    have t1: "\<forall>t \<in> set (tts_calls st1). snd (tts t) = None" .
    from assms t1 show ?thesis
      unfolding run_turn_def Let_def ag prod.case l'
      by (auto simp: stream_tts_eq emit_def split: option.splits if_splits prod.splits)
  next
    case (Some e)
    with assms show ?thesis
      unfolding run_turn_def Let_def ag prod.case l by simp
  qed
qed

lemma add_response_transcription [simp]:
  "transcription_queue (add_response p m) = transcription_queue p"
  by (simp add: add_response_def split: prod.splits)

lemma fold_add_response_transcription [simp]:
  "transcription_queue (fold (\<lambda>m q. add_response q m) ms p) = transcription_queue p"
  by (induction ms arbitrary: p) simp_all

lemma add_response_items:
  "set (items (response_queue (add_response p m))) \<subseteq> insert m (set (items (response_queue p)))"
  by (auto simp: add_response_def add_queue_no_wait_log_def put_nowait_def split: if_splits)

lemma fold_add_response_items:
  "set (items (response_queue (fold (\<lambda>m q. add_response q m) ms p)))
     \<subseteq> set (items (response_queue p)) \<union> set ms"
proof (induction ms arbitrary: p)
  case Nil
  then show ?case by simp
next
  case (Cons m ms)
  from Cons.IH[of "add_response p m"] add_response_items[of p m]
  show ?case by auto
qed

lemma failing_turn:
  "run_turn (\<lambda>t. ([''Hi.''], None)) (\<lambda>t. ([], Some (ProviderError ''tts'')))
       \<lparr>flag = 0, timestamp = 1, audio = PCMBytes [], transcript = Some ''Hello.''\<rparr>
     = (\<lparr>text_buffer = [], first_response_chunk = False, first_speech_chunk = False,
         emitted =
           [create_event_message TRANSCRIPTION_TEXT (Some (Text ''Hello.'')) (Some 1),
            create_event_message AI_RESPONSE_TEXT_START None None,
            create_event_message AI_RESPONSE_SPEECH_START None None,
            create_event_message AI_RESPONSE_TEXT_DELTA (Some (Text ''Hi.'')) None],
         tts_calls = [''Hi.'']\<rparr>,
        Some (ProviderError ''tts''))"
  by (simp add: run_turn_def on_agent_chunk_def Let_def emit_def stream_tts_eq sentence_endings_def
      rfind_def py_slice_to_def py_slice_from_def norm_index_def)

subsection \<open>C7: sentence splitting and the example turn\<close>

text \<open>
  C7. For every turn state and every agent chunk, with \<open>B\<close> the rolling buffer after the
  chunk is appended: if \<open>B\<close> holds no sentence ending, nothing but (once)
  \<open>ai.response.text.start\<close> is emitted and \<open>B\<close> is kept; otherwise \<open>B\<close> is cut after its
  rightmost sentence ending (the prefix ends in one of \<open>. ! ? \n\<close>, the rest holds
  none), the prefix is emitted as one \<open>ai.response.text.delta\<close>, preceded by
  \<open>ai.response.speech.start\<close> if that was not sent yet, and followed by one
  \<open>tts_stream\<close> call on the prefix with one speech delta per chunk it yields. For the
  chunk sequence \<open>Hi\<close>, \<open> there\<close>, \<open>! How\<close>, \<open> are\<close>, \<open> you?\<close> (and a TTS that does not
  raise) the text deltas are \<open>Hi there!\<close> then \<open> How are you?\<close>, \<open>tts_stream\<close> is called
  with exactly these two texts, and \<open>ai.response.speech.start\<close> occurs once, before
  the first text delta and every speech delta.
\<close>

theorem agent_sentence_streaming:
  "(\<not> (\<exists>ending \<in> set sentence_endings. ending \<in> set (text_buffer st @ chunk)) \<longrightarrow>
      on_agent_chunk tts st chunk
        = (st\<lparr>text_buffer := text_buffer st @ chunk,
              first_response_chunk := False,
              emitted := emitted st @
                (if first_response_chunk st
                 then [create_event_message AI_RESPONSE_TEXT_START None None] else [])\<rparr>,
           None))
   \<and> ((\<exists>ending \<in> set sentence_endings. ending \<in> set (text_buffer st @ chunk)) \<longrightarrow>
      (\<exists>complete rest.
           text_buffer st @ chunk = complete @ rest
         \<and> complete \<noteq> [] \<and> last complete \<in> set sentence_endings
         \<and> set rest \<inter> set sentence_endings = {}
         \<and> on_agent_chunk tts st chunk
             = (st\<lparr>text_buffer := rest,
                   first_response_chunk := False,
                   first_speech_chunk := False,
                   tts_calls := tts_calls st @ [complete],
                   emitted := emitted st @
                     (if first_response_chunk st
                      then [create_event_message AI_RESPONSE_TEXT_START None None] else []) @
                     (if first_speech_chunk st
                      then [create_event_message AI_RESPONSE_SPEECH_START None None] else []) @
                     [create_event_message AI_RESPONSE_TEXT_DELTA (Some (Text complete)) None] @
                     map (\<lambda>chunk. create_event_message AI_RESPONSE_SPEECH_DELTA
                                     (Some (Base64Of chunk)) None) (fst (tts complete))\<rparr>,
                snd (tts complete))))
   \<and> (snd (tts ''Hi there!'') = None \<and> snd (tts '' How are you?'') = None \<longrightarrow>
        snd (run_turn (\<lambda>t. ([''Hi'', '' there'', ''! How'', '' are'', '' you?''], None)) tts
               \<lparr>flag = 0, timestamp = 1, audio = PCMBytes [], transcript = Some ''Hello.''\<rparr>) = None
      \<and> text_deltas (emitted (fst (run_turn
               (\<lambda>t. ([''Hi'', '' there'', ''! How'', '' are'', '' you?''], None)) tts
               \<lparr>flag = 0, timestamp = 1, audio = PCMBytes [], transcript = Some ''Hello.''\<rparr>)))
          = [''Hi there!'', '' How are you?'']
      \<and> tts_calls (fst (run_turn
               (\<lambda>t. ([''Hi'', '' there'', ''! How'', '' are'', '' you?''], None)) tts
               \<lparr>flag = 0, timestamp = 1, audio = PCMBytes [], transcript = Some ''Hello.''\<rparr>))
          = [''Hi there!'', '' How are you?'']
      \<and> emitted_types (fst (run_turn
               (\<lambda>t. ([''Hi'', '' there'', ''! How'', '' are'', '' you?''], None)) tts
               \<lparr>flag = 0, timestamp = 1, audio = PCMBytes [], transcript = Some ''Hello.''\<rparr>))
          = [TRANSCRIPTION_TEXT, AI_RESPONSE_TEXT_START, AI_RESPONSE_SPEECH_START,
             AI_RESPONSE_TEXT_DELTA] @
            replicate (length (fst (tts ''Hi there!''))) AI_RESPONSE_SPEECH_DELTA @
            [AI_RESPONSE_TEXT_DELTA] @
            replicate (length (fst (tts '' How are you?''))) AI_RESPONSE_SPEECH_DELTA @
            [AI_RESPONSE_TEXT_END, AI_RESPONSE_SPEECH_END])"
proof (intro conjI impI)
  assume "\<not> (\<exists>ending \<in> set sentence_endings. ending \<in> set (text_buffer st @ chunk))"
  then show "on_agent_chunk tts st chunk
        = (st\<lparr>text_buffer := text_buffer st @ chunk,
              first_response_chunk := False,
              emitted := emitted st @
                (if first_response_chunk st
                 then [create_event_message AI_RESPONSE_TEXT_START None None] else [])\<rparr>,
           None)"
    by (rule on_agent_chunk_no_ending)
next
  assume "\<exists>ending \<in> set sentence_endings. ending \<in> set (text_buffer st @ chunk)"
  then show "\<exists>complete rest.
           text_buffer st @ chunk = complete @ rest
         \<and> complete \<noteq> [] \<and> last complete \<in> set sentence_endings
         \<and> set rest \<inter> set sentence_endings = {}
         \<and> on_agent_chunk tts st chunk
             = (st\<lparr>text_buffer := rest,
                   first_response_chunk := False,
                   first_speech_chunk := False,
                   tts_calls := tts_calls st @ [complete],
                   emitted := emitted st @
                     (if first_response_chunk st
                      then [create_event_message AI_RESPONSE_TEXT_START None None] else []) @
                     (if first_speech_chunk st
                      then [create_event_message AI_RESPONSE_SPEECH_START None None] else []) @
                     [create_event_message AI_RESPONSE_TEXT_DELTA (Some (Text complete)) None] @
                     map (\<lambda>chunk. create_event_message AI_RESPONSE_SPEECH_DELTA
                                     (Some (Base64Of chunk)) None) (fst (tts complete))\<rparr>,
                snd (tts complete))"
    by (rule on_agent_chunk_ending)
next
  assume a: "snd (tts ''Hi there!'') = None \<and> snd (tts '' How are you?'') = None"
  then have a1: "snd (tts ''Hi there!'') = None" and a2: "snd (tts '' How are you?'') = None"
    by simp_all
  show "snd (run_turn (\<lambda>t. ([''Hi'', '' there'', ''! How'', '' are'', '' you?''], None)) tts
               \<lparr>flag = 0, timestamp = 1, audio = PCMBytes [], transcript = Some ''Hello.''\<rparr>) = None"
    by (simp add: example_turn[OF a1 a2])
  show "text_deltas (emitted (fst (run_turn
               (\<lambda>t. ([''Hi'', '' there'', ''! How'', '' are'', '' you?''], None)) tts
               \<lparr>flag = 0, timestamp = 1, audio = PCMBytes [], transcript = Some ''Hello.''\<rparr>)))
          = [''Hi there!'', '' How are you?'']"
    by (rule example_turn_deltas[OF a1 a2])
  show "tts_calls (fst (run_turn
               (\<lambda>t. ([''Hi'', '' there'', ''! How'', '' are'', '' you?''], None)) tts
               \<lparr>flag = 0, timestamp = 1, audio = PCMBytes [], transcript = Some ''Hello.''\<rparr>))
          = [''Hi there!'', '' How are you?'']"
    by (simp add: example_turn[OF a1 a2])
  show "emitted_types (fst (run_turn
               (\<lambda>t. ([''Hi'', '' there'', ''! How'', '' are'', '' you?''], None)) tts
               \<lparr>flag = 0, timestamp = 1, audio = PCMBytes [], transcript = Some ''Hello.''\<rparr>))
          = [TRANSCRIPTION_TEXT, AI_RESPONSE_TEXT_START, AI_RESPONSE_SPEECH_START,
             AI_RESPONSE_TEXT_DELTA] @
            replicate (length (fst (tts ''Hi there!''))) AI_RESPONSE_SPEECH_DELTA @
            [AI_RESPONSE_TEXT_DELTA] @
            replicate (length (fst (tts '' How are you?''))) AI_RESPONSE_SPEECH_DELTA @
            [AI_RESPONSE_TEXT_END, AI_RESPONSE_SPEECH_END]"
    by (rule example_turn_types[OF a1 a2])
qed

theorem agent_sentence_streaming_witness:
  "\<not> (\<exists>ending \<in> set sentence_endings. ending \<in> set ('' How'' @ '' are''))
   \<and> on_agent_chunk (\<lambda>t. ([[1, 2]], None))
        \<lparr>text_buffer = '' How'', first_response_chunk = False, first_speech_chunk = False,
          emitted = [], tts_calls = [''Hi there!'']\<rparr> '' are''
       = (\<lparr>text_buffer = '' How are'', first_response_chunk = False, first_speech_chunk = False,
           emitted = [], tts_calls = [''Hi there!'']\<rparr>, None)
   \<and> (\<exists>ending \<in> set sentence_endings. ending \<in> set (''Hi there'' @ ''! How''))
   \<and> (\<exists>complete rest. ''Hi there'' @ ''! How'' = complete @ rest
         \<and> complete \<noteq> [] \<and> last complete \<in> set sentence_endings
         \<and> set rest \<inter> set sentence_endings = {}
         \<and> on_agent_chunk (\<lambda>t. ([[1, 2]], None))
              \<lparr>text_buffer = ''Hi there'', first_response_chunk = False, first_speech_chunk = True,
                emitted = [], tts_calls = []\<rparr> ''! How''
            = (\<lparr>text_buffer = rest, first_response_chunk = False, first_speech_chunk = False,
                emitted = [create_event_message AI_RESPONSE_SPEECH_START None None,
                           create_event_message AI_RESPONSE_TEXT_DELTA (Some (Text complete)) None,
                           create_event_message AI_RESPONSE_SPEECH_DELTA (Some (Base64Of [1, 2])) None],
                tts_calls = [complete]\<rparr>, None))
   \<and> text_deltas (emitted (fst (run_turn
          (\<lambda>t. ([''Hi'', '' there'', ''! How'', '' are'', '' you?''], None)) (\<lambda>t. ([[1, 2]], None))
          \<lparr>flag = 0, timestamp = 1, audio = PCMBytes [], transcript = Some ''Hello.''\<rparr>)))
       = [''Hi there!'', '' How are you?'']"
proof -
  have h1: "\<not> (\<exists>ending \<in> set sentence_endings. ending \<in> set ('' How'' @ '' are''))"
    by (simp add: sentence_endings_def)
  have h2: "\<exists>ending \<in> set sentence_endings. ending \<in> set (''Hi there'' @ ''! How'')"
    by (simp add: sentence_endings_def)
  have h3: "snd ((\<lambda>t. ([[1, 2 :: int]], None :: py_error option)) ''Hi there!'') = None
          \<and> snd ((\<lambda>t. ([[1, 2 :: int]], None :: py_error option)) '' How are you?'') = None"
    by simp
  from agent_sentence_streaming
         [of "\<lparr>text_buffer = '' How'', first_response_chunk = False, first_speech_chunk = False,
               emitted = [], tts_calls = [''Hi there!'']\<rparr>" "'' are''" "\<lambda>t. ([[1, 2]], None)"]
       h1
  have a: "on_agent_chunk (\<lambda>t. ([[1, 2]], None))
        \<lparr>text_buffer = '' How'', first_response_chunk = False, first_speech_chunk = False,
          emitted = [], tts_calls = [''Hi there!'']\<rparr> '' are''
       = (\<lparr>text_buffer = '' How are'', first_response_chunk = False, first_speech_chunk = False,
           emitted = [], tts_calls = [''Hi there!'']\<rparr>, None)"
    by simp
  from agent_sentence_streaming
         [of "\<lparr>text_buffer = ''Hi there'', first_response_chunk = False, first_speech_chunk = True,
               emitted = [], tts_calls = []\<rparr>" "''! How''" "\<lambda>t. ([[1, 2]], None)"]
       h2
  have b: "\<exists>complete rest. ''Hi there'' @ ''! How'' = complete @ rest
         \<and> complete \<noteq> [] \<and> last complete \<in> set sentence_endings
         \<and> set rest \<inter> set sentence_endings = {}
         \<and> on_agent_chunk (\<lambda>t. ([[1, 2]], None))
              \<lparr>text_buffer = ''Hi there'', first_response_chunk = False, first_speech_chunk = True,
                emitted = [], tts_calls = []\<rparr> ''! How''
            = (\<lparr>text_buffer = rest, first_response_chunk = False, first_speech_chunk = False,
                emitted = [create_event_message AI_RESPONSE_SPEECH_START None None,
                           create_event_message AI_RESPONSE_TEXT_DELTA (Some (Text complete)) None,
                           create_event_message AI_RESPONSE_SPEECH_DELTA (Some (Base64Of [1, 2])) None],
                tts_calls = [complete]\<rparr>, None)"
    by simp
  from agent_sentence_streaming [of _ _ "\<lambda>t. ([[1, 2]], None)"] h3
  have c: "text_deltas (emitted (fst (run_turn
          (\<lambda>t. ([''Hi'', '' there'', ''! How'', '' are'', '' you?''], None)) (\<lambda>t. ([[1, 2]], None))
          \<lparr>flag = 0, timestamp = 1, audio = PCMBytes [], transcript = Some ''Hello.''\<rparr>)))
       = [''Hi there!'', '' How are you?'']"
    by blast
  from h1 a h2 b c show ?thesis by blast
qed

subsection \<open>C2: an exception during a turn\<close>

text \<open>
  C2 (as the code has it). If the agent stream raises, or a TTS stream called during
  the turn raises, the turn ends with that exception. For every turn that ends with
  an exception: none of the events the turn emitted is \<open>ai.response.text.end\<close> or
  \<open>ai.response.speech.end\<close>; the exception is logged by the outermost handler and the
  AgentDriver task returns; the chunks still waiting in the transcription queue stay
  there unprocessed; the response queue holds nothing but what it held before and
  events of that turn.
\<close>

theorem turn_exception_ends_agent_driver:
  "(snd (agent (transcript c)) \<noteq> None \<longrightarrow> snd (run_turn agent tts c) \<noteq> None)
   \<and> ((\<exists>t \<in> set (tts_calls (fst (run_turn agent tts c))). snd (tts t) \<noteq> None) \<longrightarrow>
        snd (run_turn agent tts c) \<noteq> None)
   \<and> (\<forall>st e. run_turn agent tts c = (st, Some e) \<longrightarrow>
         (\<forall>m \<in> set (emitted st). \<not> is_end_event m)
       \<and> snd (drive_agent agent tts p (c # waiting)) = TaskEnded e
       \<and> items (transcription_queue (fst (drive_agent agent tts p (c # waiting)))) = waiting
       \<and> set (items (response_queue (fst (drive_agent agent tts p (c # waiting)))))
            \<subseteq> set (items (response_queue p)) \<union> set (emitted st)
       \<and> logs (fst (drive_agent agent tts p (c # waiting)))
            = logs (fold (\<lambda>m q. add_response q m) (emitted st)
                     (p\<lparr>transcription_queue := (transcription_queue p)\<lparr>items := waiting\<rparr>\<rparr>))
              @ [LogException e])"
proof (intro conjI impI allI)
  assume "snd (agent (transcript c)) \<noteq> None"
  then show "snd (run_turn agent tts c) \<noteq> None" by (rule run_turn_agent_error)
next
  assume a: "\<exists>t \<in> set (tts_calls (fst (run_turn agent tts c))). snd (tts t) \<noteq> None"
  show "snd (run_turn agent tts c) \<noteq> None"
  proof
    assume "snd (run_turn agent tts c) = None"
    then have "run_turn agent tts c = (fst (run_turn agent tts c), None)"
      by (metis prod.collapse)
    from run_turn_ok_tts_ok[OF this] a show False by auto
  qed
next
  fix st e assume r: "run_turn agent tts c = (st, Some e)"
  let ?p1 = "p\<lparr>transcription_queue := (transcription_queue p)\<lparr>items := waiting\<rparr>\<rparr>"
  from run_turn_error_no_end[OF r] show "\<forall>m \<in> set (emitted st). \<not> is_end_event m" .
  from r show "snd (drive_agent agent tts p (c # waiting)) = TaskEnded e" by (simp add: Let_def)
  from r show "items (transcription_queue (fst (drive_agent agent tts p (c # waiting)))) = waiting"
    by (simp add: Let_def)
  from r fold_add_response_items[of "emitted st" ?p1]
  show "set (items (response_queue (fst (drive_agent agent tts p (c # waiting)))))
            \<subseteq> set (items (response_queue p)) \<union> set (emitted st)"
    by (simp add: Let_def)
  from r show "logs (fst (drive_agent agent tts p (c # waiting)))
            = logs (fold (\<lambda>m q. add_response q m) (emitted st) ?p1) @ [LogException e]"
    by (simp add: Let_def)
qed

theorem turn_exception_ends_agent_driver_witness:
  "snd ((\<lambda>t. ([], Some (ProviderError ''agent''))) (Some ''Hello.'')) \<noteq> (None :: py_error option)
   \<and> snd (run_turn (\<lambda>t. ([], Some (ProviderError ''agent''))) (\<lambda>t. ([], None))
             \<lparr>flag = 0, timestamp = 1, audio = PCMBytes [], transcript = Some ''Hello.''\<rparr>) \<noteq> None
   \<and> snd (drive_agent (\<lambda>t. ([''Hi.''], None)) (\<lambda>t. ([], Some (ProviderError ''tts'')))
             (VoicePipeline PipelineConfig)
             [\<lparr>flag = 0, timestamp = 1, audio = PCMBytes [], transcript = Some ''Hello.''\<rparr>,
              \<lparr>flag = 0, timestamp = 2, audio = PCMBytes [], transcript = Some ''Again.''\<rparr>])
       = TaskEnded (ProviderError ''tts'')
   \<and> items (transcription_queue (fst (drive_agent (\<lambda>t. ([''Hi.''], None))
             (\<lambda>t. ([], Some (ProviderError ''tts''))) (VoicePipeline PipelineConfig)
             [\<lparr>flag = 0, timestamp = 1, audio = PCMBytes [], transcript = Some ''Hello.''\<rparr>,
              \<lparr>flag = 0, timestamp = 2, audio = PCMBytes [], transcript = Some ''Again.''\<rparr>])))
       = [\<lparr>flag = 0, timestamp = 2, audio = PCMBytes [], transcript = Some ''Again.''\<rparr>]"
proof -
  let ?c = "\<lparr>flag = 0, timestamp = 1, audio = PCMBytes [], transcript = Some ''Hello.''\<rparr>"
  have h: "snd ((\<lambda>t. ([], Some (ProviderError ''agent''))) (transcript ?c)) \<noteq> (None :: py_error option)"
    by simp
  from turn_exception_ends_agent_driver
         [of "\<lambda>t. ([], Some (ProviderError ''agent''))" ?c "\<lambda>t. ([], None)"] h
  have a: "snd (run_turn (\<lambda>t. ([], Some (ProviderError ''agent''))) (\<lambda>t. ([], None)) ?c) \<noteq> None"
    by blast
  from turn_exception_ends_agent_driver
         [of "\<lambda>t. ([''Hi.''], None)" ?c "\<lambda>t. ([], Some (ProviderError ''tts''))"
             "VoicePipeline PipelineConfig"
             "[\<lparr>flag = 0, timestamp = 2, audio = PCMBytes [], transcript = Some ''Again.''\<rparr>]"]
       failing_turn
  have b: "snd (drive_agent (\<lambda>t. ([''Hi.''], None)) (\<lambda>t. ([], Some (ProviderError ''tts'')))
             (VoicePipeline PipelineConfig)
             [?c, \<lparr>flag = 0, timestamp = 2, audio = PCMBytes [], transcript = Some ''Again.''\<rparr>])
       = TaskEnded (ProviderError ''tts'')"
    and c: "items (transcription_queue (fst (drive_agent (\<lambda>t. ([''Hi.''], None))
             (\<lambda>t. ([], Some (ProviderError ''tts''))) (VoicePipeline PipelineConfig)
             [?c, \<lparr>flag = 0, timestamp = 2, audio = PCMBytes [], transcript = Some ''Again.''\<rparr>])))
       = [\<lparr>flag = 0, timestamp = 2, audio = PCMBytes [], transcript = Some ''Again.''\<rparr>]"
    by blast+
  from a b c show ?thesis by simp
qed

text \<open>
  C2 as stated fails: with two chunks waiting and a TTS stream that raises on the first
  sentence, the task ends with that exception, the response queue holds the four
  events sent before the failure and no end event, and the second chunk is still in
  the transcription queue.
\<close>

theorem tts_failure_counterexample:
  "snd (generate_agent_response (\<lambda>t. ([''Hi.''], None)) (\<lambda>t. ([], Some (ProviderError ''tts'')))
         ((VoicePipeline PipelineConfig)
            \<lparr>transcription_queue :=
               \<lparr>maxsize = 60,
                items = [\<lparr>flag = 0, timestamp = 1, audio = PCMBytes [], transcript = Some ''Hello.''\<rparr>,
                         \<lparr>flag = 0, timestamp = 2, audio = PCMBytes [], transcript = Some ''Again.''\<rparr>]\<rparr>\<rparr>))
     = TaskEnded (ProviderError ''tts'')
   \<and> map ev_type (items (response_queue (fst (generate_agent_response (\<lambda>t. ([''Hi.''], None))
         (\<lambda>t. ([], Some (ProviderError ''tts'')))
         ((VoicePipeline PipelineConfig)
            \<lparr>transcription_queue :=
               \<lparr>maxsize = 60,
                items = [\<lparr>flag = 0, timestamp = 1, audio = PCMBytes [], transcript = Some ''Hello.''\<rparr>,
                         \<lparr>flag = 0, timestamp = 2, audio = PCMBytes [], transcript = Some ''Again.''\<rparr>]\<rparr>\<rparr>)))))
     = [TRANSCRIPTION_TEXT, AI_RESPONSE_TEXT_START, AI_RESPONSE_SPEECH_START, AI_RESPONSE_TEXT_DELTA]
   \<and> items (transcription_queue (fst (generate_agent_response (\<lambda>t. ([''Hi.''], None))
         (\<lambda>t. ([], Some (ProviderError ''tts'')))
         ((VoicePipeline PipelineConfig)
            \<lparr>transcription_queue :=
               \<lparr>maxsize = 60,
                items = [\<lparr>flag = 0, timestamp = 1, audio = PCMBytes [], transcript = Some ''Hello.''\<rparr>,
                         \<lparr>flag = 0, timestamp = 2, audio = PCMBytes [], transcript = Some ''Again.''\<rparr>]\<rparr>\<rparr>))))
     = [\<lparr>flag = 0, timestamp = 2, audio = PCMBytes [], transcript = Some ''Again.''\<rparr>]"
  by (simp add: generate_agent_response_def failing_turn Let_def VoicePipeline_def new_queue_def
      MAX_QUEUE_SIZE_def add_response_def add_queue_no_wait_log_def put_nowait_def full_def)

subsection \<open>C8: adapters of providers that do not stream\<close>

lemma GroqSTT_one_chunk:
  "transcriptions_create client model audio_int16 = Inr transcription_text \<Longrightarrow>
     GroqSTT_stt_stream client model audio_int16 = ([transcription_text], None)"
  by (simp add: GroqSTT_stt_stream_def stt_def)

text \<open>
  C8, evaluated on the code. \<open>OpenAISTT.stt_stream\<close> with \<open>whisper-1\<close> yields the full
  transcript and then continues into the streaming request: when that request returns a
  chunk with a \<open>delta\<close>, a second chunk is yielded; when it raises, the stream ends with
  the exception after the first chunk. \<open>GroqSTT.stt_stream\<close> with the same provider
  answers yields the transcript once and ends.
\<close>

theorem whisper1_stream_falls_through:
  "OpenAISTT_stt_stream
       \<lparr>transcriptions_create = (\<lambda>model a. Inr ''hello''),
        transcriptions_create_stream = (\<lambda>model a. Inr ([WithDelta ''hello''], None))\<rparr>
       ''whisper-1'' [1, 2, 3]
     = ([''hello'', ''hello''], None)
   \<and> OpenAISTT_stt_stream
       \<lparr>transcriptions_create = (\<lambda>model a. Inr ''hello''),
        transcriptions_create_stream = (\<lambda>model a. Inl (ProviderError ''timeout''))\<rparr>
       ''whisper-1'' [1, 2, 3]
     = ([''hello''], Some (ProviderError ''timeout''))
   \<and> GroqSTT_stt_stream
       \<lparr>transcriptions_create = (\<lambda>model a. Inr ''hello''),
        transcriptions_create_stream = (\<lambda>model a. Inr ([WithDelta ''hello''], None))\<rparr>
       ''whisper-large-v3-turbo'' [1, 2, 3]
     = ([''hello''], None)"
  by (simp add: OpenAISTT_stt_stream_def GroqSTT_stt_stream_def stt_def)

end
